theory Spec2Isabelle
  imports Complex_Main "HOL-Library.List_Lexorder" "HOL-Library.Sublist" "HOL-Library.Multiset"
begin

section \<open>Text and numbers\<close>

text \<open>
  A Python \<open>str\<close> is a sequence of Unicode code points: the texts that users submit and
  that the tables hold are lists of code points. Names fixed by the program (form fields,
  routes) stay HOL strings; \<open>lit\<close> gives the text of an ASCII literal.
\<close>

type_synonym str = "nat list"

definition lit :: "string \<Rightarrow> str" where
  "lit s = map of_char s"

text \<open>
  Python floats, which SQLite stores in its \<open>REAL\<close> columns: a finite value, one of the
  two infinities, or NaN. (The two zeros are not told apart.) Arithmetic on finite values
  rounds: the parameter \<open>rnd\<close> of the operations stands for the rounding of IEEE 754
  doubles, which gives the nearest double of the exact result, or an infinity when that
  is out of range.
\<close>

datatype fl = Fin real | PInf | NInf | NaN

text \<open>\<open>a <= b\<close> and \<open>a < b\<close>: false whenever an operand is NaN.\<close>

fun fl_le :: "fl \<Rightarrow> fl \<Rightarrow> bool" where
  "fl_le NaN b = False"
| "fl_le a NaN = False"
| "fl_le NInf b = True"
| "fl_le a PInf = True"
| "fl_le (Fin x) (Fin y) = (x \<le> y)"
| "fl_le a b = False"

fun fl_lt :: "fl \<Rightarrow> fl \<Rightarrow> bool" where
  "fl_lt NaN b = False"
| "fl_lt a NaN = False"
| "fl_lt PInf b = False"
| "fl_lt a NInf = False"
| "fl_lt (Fin x) (Fin y) = (x < y)"
| "fl_lt a b = True"

fun fl_neg :: "fl \<Rightarrow> fl" where
  "fl_neg (Fin x) = Fin (- x)"
| "fl_neg PInf = NInf"
| "fl_neg NInf = PInf"
| "fl_neg NaN = NaN"

text \<open>\<open>a + b\<close>: the sum of opposite infinities is NaN.\<close>

fun fl_add :: "(real \<Rightarrow> fl) \<Rightarrow> fl \<Rightarrow> fl \<Rightarrow> fl" where
  "fl_add rnd NaN b = NaN"
| "fl_add rnd a NaN = NaN"
| "fl_add rnd (Fin x) (Fin y) = rnd (x + y)"
| "fl_add rnd PInf NInf = NaN"
| "fl_add rnd NInf PInf = NaN"
| "fl_add rnd PInf b = PInf"
| "fl_add rnd NInf b = NInf"
| "fl_add rnd a b = b"

definition fl_sub :: "(real \<Rightarrow> fl) \<Rightarrow> fl \<Rightarrow> fl \<Rightarrow> fl" where
  "fl_sub rnd a b = fl_add rnd a (fl_neg b)"

text \<open>\<open>a * b\<close>: an infinity times zero is NaN; otherwise the signs multiply.\<close>

definition fl_sign :: "fl \<Rightarrow> int" where
  "fl_sign a = (if fl_lt (Fin 0) a then 1 else if fl_lt a (Fin 0) then - 1 else 0)"

fun fl_mul :: "(real \<Rightarrow> fl) \<Rightarrow> fl \<Rightarrow> fl \<Rightarrow> fl" where
  "fl_mul rnd NaN b = NaN"
| "fl_mul rnd a NaN = NaN"
| "fl_mul rnd (Fin x) (Fin y) = rnd (x * y)"
| "fl_mul rnd a b =
     (if fl_sign a * fl_sign b = 0 then NaN
      else if fl_sign a * fl_sign b = 1 then PInf else NInf)"

section \<open>Data model of app.py\<close>

text \<open>
  The five tables created by \<open>init_db\<close>. Every table has an
  \<open>INTEGER PRIMARY KEY AUTOINCREMENT\<close> column, so the database state keeps, beside
  the rows of each table, the last key handed out for it. SQLite stores a NaN as
  \<open>NULL\<close>: in the columns of \<open>purchases\<close>, \<open>sales\<close> and \<open>purchase_orders\<close>, which may
  be \<open>NULL\<close>, the value NaN stands for it; the columns \<open>quantity\<close> and \<open>unit_price\<close>
  of \<open>inventory\<close> are \<open>REAL NOT NULL\<close> and refuse it.
\<close>

record user =
  user_id :: nat
  username :: str
  password_hash :: str
  user_shop :: str

record inv_row =
  inv_id :: nat
  inv_shop :: str
  oil_type :: str
  inv_unit :: str
  quantity :: fl
  unit_price :: fl

text \<open>The tables \<open>purchases\<close> and \<open>sales\<close> have the same columns.\<close>

record txn =
  txn_id :: nat
  txn_shop :: str
  txn_oil_type :: str
  txn_unit :: str
  txn_quantity :: fl
  price_per_unit :: fl
  txn_total :: fl
  txn_date :: str

record po =
  po_id :: nat
  po_shop :: str
  po_oil_type :: "str option"
  po_unit :: str
  po_quantity :: fl
  status :: str
  po_date :: str

record db =
  users :: "user list"
  users_seq :: nat
  inventory :: "inv_row list"
  inventory_seq :: nat
  purchases :: "txn list"
  purchases_seq :: nat
  sales :: "txn list"
  sales_seq :: nat
  purchase_orders :: "po list"
  purchase_orders_seq :: nat

text \<open>The exceptions that the handlers meet.\<close>

datatype error = IntegrityError | TypeError

section \<open>Requests and responses\<close>

datatype http_method = GET | POST

text \<open>\<open>request.form\<close> and \<open>request.args\<close>: field name to submitted value.\<close>

type_synonym form = "string \<rightharpoonup> str"

text \<open>\<open>request.form.get(k, d)\<close>.\<close>

definition form_get :: "form \<Rightarrow> string \<Rightarrow> str \<Rightarrow> str" where
  "form_get f k d = (case f k of None \<Rightarrow> d | Some v \<Rightarrow> v)"

text \<open>
  The messages passed to \<open>flash\<close>, one constructor per message of the source:
  "Fill all fields", "Username already exists", "Registered. Please login.",
  "Stock updated", "Purchase recorded and inventory updated",
  "Item not found: ..." (with the item name), "Not enough stock for ..." (with item name,
  unit and available quantity), "No items selected for sale", "Error recording sale: ..."
  (with the exception), "Sale recorded", "Purchase order created",
  "No record found for: ..." and "Please enter a search keyword".
\<close>

datatype message =
    FillAllFields
  | UsernameExists
  | Registered
  | StockUpdated
  | PurchaseRecorded
  | ItemNotFound str
  | NotEnoughStock str str fl
  | NoItemsSelected
  | ErrorRecordingSale error
  | SaleRecorded
  | PoCreated
  | NoRecordFound str
  | EnterKeyword

text \<open>What a handler renders when it does not redirect.\<close>

datatype page =
    AuthPage string
  | AddInventoryForm
  | PurchaseForm
  | SellForm "inv_row list"
  | PoList "po list"
  | SearchResults str "inv_row list" "txn list" "txn list"

text \<open>
  A handler either redirects to a route (\<open>redirect(url_for(...))\<close>) or renders a page;
  both carry the messages flashed while the request was handled. An exception that no
  handler catches ends the request with the status 500: nothing was committed, and the
  connection is closed with its changes undone.
\<close>

datatype response =
    Redirect string "message list"
  | Render page "message list"
  | InternalServerError error

section \<open>Strings\<close>

text \<open>
  \<open>str.strip()\<close> removes leading and trailing whitespace: the code points for which
  \<open>str.isspace\<close> holds, which are U+0009 to U+000D, U+001C to U+0020, U+0085, U+00A0,
  U+1680, U+2000 to U+200A, U+2028, U+2029, U+202F, U+205F and U+3000.
\<close>

definition is_space :: "nat \<Rightarrow> bool" where
  "is_space n =
     ((9 \<le> n \<and> n \<le> 13) \<or> (28 \<le> n \<and> n \<le> 32) \<or> n = 133 \<or> n = 160 \<or> n = 5760 \<or>
      (8192 \<le> n \<and> n \<le> 8202) \<or> n = 8232 \<or> n = 8233 \<or> n = 8239 \<or> n = 8287 \<or>
      n = 12288)"

definition strip :: "str \<Rightarrow> str" where
  "strip s = rev (dropWhile is_space (rev (dropWhile is_space s)))"

section \<open>Session\<close>

text \<open>
  \<open>current_user\<close>: the session holds a user id or nothing; an id that is absent or
  falsy (0) gives no user, otherwise the row of \<open>users\<close> with that id is fetched.
\<close>

type_synonym session = "nat option"

definition current_user :: "session \<Rightarrow> db \<Rightarrow> user option" where
  "current_user sess d =
     (case sess of
        None \<Rightarrow> None
      | Some uid \<Rightarrow> if uid = 0 then None else find (\<lambda>u. user_id u = uid) (users d))"

section \<open>Registration\<close>

text \<open>
  \<open>register\<close>. The parameter \<open>gph\<close> stands for werkzeug's
  \<open>generate_password_hash\<close>. The \<open>INSERT\<close> raises \<open>IntegrityError\<close> exactly when
  the \<open>UNIQUE\<close> constraint on \<open>username\<close> is violated; then nothing is written.
\<close>

definition register :: "(str \<Rightarrow> str) \<Rightarrow> http_method \<Rightarrow> form \<Rightarrow> db \<Rightarrow> response \<times> db" where
  "register gph m f d =
     (case m of
        GET \<Rightarrow> (Render (AuthPage ''register'') [], d)
      | POST \<Rightarrow>
          (let uname = strip (form_get f ''username'' []);
               pwd = form_get f ''password'' [];
               shop = (let s = strip (form_get f ''shop_name'' [])
                       in if s = [] then lit ''DefaultShop'' else s)
           in if uname = [] \<or> pwd = [] then (Redirect ''register'' [FillAllFields], d)
              else if uname \<in> set (map username (users d))
                then (Redirect ''register'' [UsernameExists], d)
              else (Redirect ''login'' [Registered],
                    d\<lparr>users := users d @
                         [\<lparr>user_id = users_seq d + 1, username = uname,
                           password_hash = gph pwd, user_shop = shop\<rparr>],
                      users_seq := users_seq d + 1\<rparr>)))"

section \<open>Numeric form fields\<close>

text \<open>
  The parameter \<open>pf\<close> of the handlers stands for Python's \<open>float\<close> applied to a
  string: \<open>None\<close> when it raises \<open>ValueError\<close>; it may well return an infinity or NaN
  (for the texts "inf" and "nan", say). The expression \<open>float(raw or 0)\<close> inside
  \<open>try\<close> with \<open>except: qty = 0.0\<close> gives zero for the empty string and for a string
  that does not parse.
\<close>

type_synonym float_parser = "str \<Rightarrow> fl option"

definition float_or_zero :: "float_parser \<Rightarrow> str \<Rightarrow> fl" where
  "float_or_zero pf raw =
     (if raw = [] then Fin 0 else case pf raw of None \<Rightarrow> Fin 0 | Some v \<Rightarrow> v)"

section \<open>Inventory upsert\<close>

text \<open>
  The block that \<open>add_inventory\<close> (lines 372 to 378) and \<open>purchase\<close> (lines 419 to
  425) both contain: fetch the first row with the key \<open>(shop_name, oil_type, unit)\<close>;
  if there is one, \<open>UPDATE ... WHERE id = ?\<close> with the sum of the quantities and the
  new price, else \<open>INSERT\<close> a new row. A NaN is bound as \<open>NULL\<close>, which the two
  \<open>NOT NULL\<close> columns refuse: the statement raises \<open>IntegrityError\<close> and writes
  nothing.
\<close>

definition has_key :: "str \<Rightarrow> str \<Rightarrow> str \<Rightarrow> inv_row \<Rightarrow> bool" where
  "has_key shop oil un r = (inv_shop r = shop \<and> oil_type r = oil \<and> inv_unit r = un)"

definition inventory_upsert :: "(real \<Rightarrow> fl) \<Rightarrow> str \<Rightarrow> str \<Rightarrow> str \<Rightarrow> fl \<Rightarrow> fl \<Rightarrow> db \<Rightarrow> error + db" where
  "inventory_upsert rnd shop oil un qty price d =
     (case find (has_key shop oil un) (inventory d) of
        Some existing \<Rightarrow>
          (let new_qty = fl_add rnd (quantity existing) qty
           in if new_qty = NaN \<or> price = NaN then Inl IntegrityError
              else Inr (d\<lparr>inventory :=
                  map (\<lambda>r. if inv_id r = inv_id existing
                            then r\<lparr>quantity := new_qty, unit_price := price\<rparr> else r)
                      (inventory d)\<rparr>))
      | None \<Rightarrow>
          if qty = NaN \<or> price = NaN then Inl IntegrityError
          else Inr (d\<lparr>inventory := inventory d @
                 [\<lparr>inv_id = inventory_seq d + 1, inv_shop = shop, oil_type = oil,
                   inv_unit = un, quantity = qty, unit_price = price\<rparr>],
            inventory_seq := inventory_seq d + 1\<rparr>))"

text \<open>
  \<open>add_inventory\<close>. There is no \<open>try\<close> around the upsert: an \<open>IntegrityError\<close> ends
  the request before \<open>db.commit()\<close>.
\<close>

definition add_inventory :: "(real \<Rightarrow> fl) \<Rightarrow> float_parser \<Rightarrow> session \<Rightarrow> http_method \<Rightarrow> form \<Rightarrow> db \<Rightarrow> response \<times> db" where
  "add_inventory rnd pf sess m f d =
     (case current_user sess d of
        None \<Rightarrow> (Redirect ''login'' [], d)
      | Some u \<Rightarrow>
          (case m of
             POST \<Rightarrow>
               (let oil = strip (form_get f ''oil_type'' []);
                    un = form_get f ''unit'' (lit ''Liters'');
                    qty = float_or_zero pf (form_get f ''quantity'' (lit ''0''));
                    price = float_or_zero pf (form_get f ''price'' (lit ''0''));
                    shop = user_shop u
                in case inventory_upsert rnd shop oil un qty price d of
                     Inl e \<Rightarrow> (InternalServerError e, d)
                   | Inr d' \<Rightarrow> (Redirect ''inventory'' [StockUpdated], d'))
           | GET \<Rightarrow> (Render AddInventoryForm [], d)))"

section \<open>Purchase recording\<close>

text \<open>
  \<open>purchase\<close>; \<open>now\<close> is the value of \<open>datetime.now().isoformat()\<close>. The columns of
  \<open>purchases\<close> accept \<open>NULL\<close>, so the first \<open>INSERT\<close> cannot fail; when the upsert
  raises, the request ends before \<open>db.commit()\<close> and the purchase row is lost with it.
\<close>

definition purchase :: "(real \<Rightarrow> fl) \<Rightarrow> float_parser \<Rightarrow> str \<Rightarrow> session \<Rightarrow> http_method \<Rightarrow> form \<Rightarrow> db \<Rightarrow> response \<times> db" where
  "purchase rnd pf now sess m f d =
     (case current_user sess d of
        None \<Rightarrow> (Redirect ''login'' [], d)
      | Some u \<Rightarrow>
          (let shop = user_shop u in
           case m of
             POST \<Rightarrow>
               (let oil = strip (form_get f ''oil_type'' []);
                    un = form_get f ''unit'' (lit ''Liters'');
                    qty = float_or_zero pf (form_get f ''quantity'' (lit ''0''));
                    price = float_or_zero pf (form_get f ''price'' (lit ''0''));
                    total = fl_mul rnd qty price;
                    d1 = d\<lparr>purchases := purchases d @
                             [\<lparr>txn_id = purchases_seq d + 1, txn_shop = shop,
                               txn_oil_type = oil, txn_unit = un, txn_quantity = qty,
                               price_per_unit = price, txn_total = total, txn_date = now\<rparr>],
                           purchases_seq := purchases_seq d + 1\<rparr>
                in case inventory_upsert rnd shop oil un qty price d1 of
                     Inl e \<Rightarrow> (InternalServerError e, d)
                   | Inr d2 \<Rightarrow> (Redirect ''dashboard'' [PurchaseRecorded], d2))
           | GET \<Rightarrow> (Render PurchaseForm [], d)))"

section \<open>Purchase orders\<close>

text \<open>
  \<open>ORDER BY col DESC\<close>: SQL leaves the order of rows with equal keys open; the model
  keeps them in table order.
\<close>

definition order_by_desc :: "('a \<Rightarrow> str) \<Rightarrow> 'a list \<Rightarrow> 'a list" where
  "order_by_desc k xs = rev (sort_key k (rev xs))"

text \<open>
  \<open>purchase_orders\<close> (the route; the name without suffix is the table's field of the
  database state). The column \<open>quantity\<close> of the table accepts \<open>NULL\<close>.
\<close>

definition purchase_orders_route :: "float_parser \<Rightarrow> str \<Rightarrow> session \<Rightarrow> http_method \<Rightarrow> form \<Rightarrow> db \<Rightarrow> response \<times> db" where
  "purchase_orders_route pf now sess m f d =
     (case current_user sess d of
        None \<Rightarrow> (Redirect ''login'' [], d)
      | Some u \<Rightarrow>
          (let shop = user_shop u in
           case m of
             POST \<Rightarrow>
               (let oil = f ''oil_type'';
                    un = (case f ''unit'' of None \<Rightarrow> lit ''Liters''
                          | Some v \<Rightarrow> if v = [] then lit ''Liters'' else v);
                    qty = (case f ''quantity'' of None \<Rightarrow> Fin 0
                           | Some raw \<Rightarrow> float_or_zero pf raw)
                in (Redirect ''purchase_orders'' [PoCreated],
                    d\<lparr>purchase_orders := purchase_orders d @
                         [\<lparr>po_id = purchase_orders_seq d + 1, po_shop = shop,
                           po_oil_type = oil, po_unit = un, po_quantity = qty,
                           status = lit ''Pending'', po_date = now\<rparr>],
                      purchase_orders_seq := purchase_orders_seq d + 1\<rparr>))
           | GET \<Rightarrow>
               (Render (PoList (order_by_desc po_date
                                  (filter (\<lambda>r. po_shop r = shop) (purchase_orders d)))) [],
                d)))"

section \<open>Sale processing\<close>

text \<open>Decimal notation of a row id, as the f-string \<open>f"qty_{iid}"\<close> writes it.\<close>

fun str_nat :: "nat \<Rightarrow> string" where
  "str_nat n =
     (if n < 10 then [char_of (48 + n)]
      else str_nat (n div 10) @ [char_of (48 + n mod 10)])"

declare str_nat.simps [simp del]

definition qty_field :: "nat \<Rightarrow> string" where
  "qty_field iid = ''qty_'' @ str_nat iid"

text \<open>The dictionaries appended to \<open>sells\<close>.\<close>

record sell_line =
  inventory_id :: nat
  sl_oil_type :: str
  sl_unit :: str
  qty :: fl
  sl_price_per_unit :: fl
  sl_total :: fl

text \<open>
  The first loop of \<open>sell\<close> (lines 475 to 503) over the shop's items: a blank field
  and a quantity \<open>qty <= 0\<close> \<open>continue\<close>; a missing row and a quantity above the stock
  flash a message and return (\<open>Inl\<close>). \<open>row["unit_price"] or 0.0\<close> is written out:
  zero is the one float that counts as false.
\<close>

fun collect_sells :: "(real \<Rightarrow> fl) \<Rightarrow> float_parser \<Rightarrow> form \<Rightarrow> db \<Rightarrow> inv_row list \<Rightarrow> sell_line list \<Rightarrow> message + sell_line list" where
  "collect_sells rnd pf f d [] sells = Inr sells"
| "collect_sells rnd pf f d (it # its) sells =
     (let iid = inv_id it;
          raw_qty = strip (form_get f (qty_field iid) [])
      in if raw_qty = [] then collect_sells rnd pf f d its sells
         else
           (let q = (case pf raw_qty of None \<Rightarrow> Fin 0 | Some v \<Rightarrow> v)
            in if fl_le q (Fin 0) then collect_sells rnd pf f d its sells
               else
                 (case find (\<lambda>r. inv_id r = iid) (inventory d) of
                    None \<Rightarrow> Inl (ItemNotFound (oil_type it))
                  | Some row \<Rightarrow>
                      if fl_lt (quantity row) q
                      then Inl (NotEnoughStock (oil_type row) (inv_unit row) (quantity row))
                      else
                        (let ppu = (if unit_price row = Fin 0 then Fin 0 else unit_price row);
                             total = fl_mul rnd q ppu
                         in collect_sells rnd pf f d its
                              (sells @
                               [\<lparr>inventory_id = inv_id row, sl_oil_type = oil_type row,
                                 sl_unit = inv_unit row, qty = q,
                                 sl_price_per_unit = ppu, sl_total = total\<rparr>])))))"

text \<open>
  The second loop (lines 509 to 519), inside \<open>try\<close>. \<open>now k\<close> is what the \<open>k\<close>-th
  call of \<open>datetime.now().isoformat()\<close> of the request returns. When the row is gone
  \<open>ex\<close> is \<open>None\<close> and \<open>ex["quantity"]\<close> raises \<open>TypeError\<close>. When the new quantity
  is NaN, \<open>new_qty <= 0\<close> is false and the \<open>UPDATE\<close> of the \<open>NOT NULL\<close> column raises
  \<open>IntegrityError\<close>. The columns of \<open>sales\<close> accept \<open>NULL\<close>.
\<close>

fun perform_sells :: "(real \<Rightarrow> fl) \<Rightarrow> str \<Rightarrow> (nat \<Rightarrow> str) \<Rightarrow> nat \<Rightarrow> sell_line list \<Rightarrow> db \<Rightarrow> error + db" where
  "perform_sells rnd shop now k [] d = Inr d"
| "perform_sells rnd shop now k (s # ss) d =
     (case find (\<lambda>r. inv_id r = inventory_id s) (inventory d) of
        None \<Rightarrow> Inl TypeError
      | Some ex \<Rightarrow>
          (let new_qty = fl_sub rnd (quantity ex) (qty s)
           in case (if fl_le new_qty (Fin 0)
                    then Inr (d\<lparr>inventory :=
                                  filter (\<lambda>r. inv_id r \<noteq> inventory_id s) (inventory d)\<rparr>)
                    else if new_qty = NaN then Inl IntegrityError
                    else Inr (d\<lparr>inventory :=
                                  map (\<lambda>r. if inv_id r = inventory_id s
                                            then r\<lparr>quantity := new_qty\<rparr> else r)
                                      (inventory d)\<rparr>)) of
                Inl e \<Rightarrow> Inl e
              | Inr d1 \<Rightarrow>
                  (let d2 = d1\<lparr>sales := sales d1 @
                              [\<lparr>txn_id = sales_seq d1 + 1, txn_shop = shop,
                                txn_oil_type = sl_oil_type s, txn_unit = sl_unit s,
                                txn_quantity = qty s, price_per_unit = sl_price_per_unit s,
                                txn_total = sl_total s, txn_date = now k\<rparr>],
                            sales_seq := sales_seq d1 + 1\<rparr>
                   in perform_sells rnd shop now (Suc k) ss d2)))"

text \<open>
  \<open>sell\<close>. The items are read with \<open>ORDER BY oil_type\<close>. An exception in the second
  loop is caught: \<open>db.rollback()\<close> restores the database of the start of the request.
\<close>

definition sell :: "(real \<Rightarrow> fl) \<Rightarrow> float_parser \<Rightarrow> (nat \<Rightarrow> str) \<Rightarrow> session \<Rightarrow> http_method \<Rightarrow> form \<Rightarrow> db \<Rightarrow> response \<times> db" where
  "sell rnd pf now sess m f d =
     (case current_user sess d of
        None \<Rightarrow> (Redirect ''login'' [], d)
      | Some u \<Rightarrow>
          (let shop = user_shop u;
               items = sort_key oil_type (filter (\<lambda>r. inv_shop r = shop) (inventory d))
           in case m of
                POST \<Rightarrow>
                  (case collect_sells rnd pf f d items [] of
                     Inl msg \<Rightarrow> (Redirect ''sell'' [msg], d)
                   | Inr sells \<Rightarrow>
                       if sells = [] then (Redirect ''sell'' [NoItemsSelected], d)
                       else
                         (case perform_sells rnd shop now 0 sells d of
                            Inl e \<Rightarrow> (Redirect ''sell'' [ErrorRecordingSale e], d)
                          | Inr d' \<Rightarrow> (Redirect ''dashboard'' [SaleRecorded], d')))
              | GET \<Rightarrow> (Render (SellForm items) [], d)))"

text \<open>
  The quantity that the first loop reads for the row with a given id (lines 477 to 483),
  a blank field counting as zero: the loop passes over the line exactly when this is
  \<open><= 0\<close>.
\<close>

definition line_qty :: "float_parser \<Rightarrow> form \<Rightarrow> nat \<Rightarrow> fl" where
  "line_qty pf f iid =
     (let raw_qty = strip (form_get f (qty_field iid) [])
      in if raw_qty = [] then Fin 0 else (case pf raw_qty of None \<Rightarrow> Fin 0 | Some v \<Rightarrow> v))"

text \<open>
  The lines that are passed over, in the words of the specification: the quantity field
  is empty, or fails to parse as a number, or parses to a value that is not positive.
\<close>

definition spec_skipped_line :: "float_parser \<Rightarrow> form \<Rightarrow> inv_row \<Rightarrow> bool" where
  "spec_skipped_line pf f it =
     (let raw_qty = strip (form_get f (qty_field (inv_id it)) [])
      in raw_qty = [] \<or> pf raw_qty = None \<or> (\<exists>v. pf raw_qty = Some v \<and> fl_le v (Fin 0)))"

section \<open>Search\<close>

text \<open>SQLite's \<open>LOWER\<close> folds the 26 ASCII capitals and leaves other characters alone.\<close>

definition lower_char :: "nat \<Rightarrow> nat" where
  "lower_char n = (if 65 \<le> n \<and> n \<le> 90 then n + 32 else n)"

definition lower :: "str \<Rightarrow> str" where
  "lower s = map lower_char s"

text \<open>
  SQLite's \<open>text LIKE pattern\<close> (pattern first here): \<open>%\<close> (code 37) matches any run
  of characters, also the empty one, \<open>_\<close> (code 95) matches any one character, every
  other character matches itself without regard to ASCII case. No escape character is in
  force.
\<close>

fun like :: "str \<Rightarrow> str \<Rightarrow> bool" where
  "like [] s = (s = [])"
| "like (p # ps) s =
     (if p = 37 then
        like ps s \<or> (case s of [] \<Rightarrow> False | c # t \<Rightarrow> like (p # ps) t)
      else
        (case s of
           [] \<Rightarrow> False
         | c # t \<Rightarrow> (p = 95 \<or> lower_char p = lower_char c) \<and> like ps t))"

text \<open>
  \<open>search\<close>. It only reads the database, so the model returns the response alone.
  \<open>request.args.get("q") or ""\<close> is the submitted value or the empty string.
\<close>

definition search :: "session \<Rightarrow> form \<Rightarrow> db \<Rightarrow> response" where
  "search sess args d =
     (case current_user sess d of
        None \<Rightarrow> Redirect ''login'' []
      | Some u \<Rightarrow>
          (let q = strip (case args ''q'' of None \<Rightarrow> [] | Some v \<Rightarrow> v);
               shop = user_shop u
           in if q \<noteq> [] then
                (let pat = lit ''%'' @ q @ lit ''%'';
                     inv_rows =
                       sort_key oil_type
                         (filter (\<lambda>r. inv_shop r = shop \<and>
                                       (like (lower pat) (lower (oil_type r)) \<or>
                                        like (lower pat) (lower (inv_unit r))))
                                 (inventory d));
                     sales_rows =
                       take 500 (order_by_desc txn_date
                         (filter (\<lambda>r. txn_shop r = shop \<and>
                                       like (lower pat) (lower (txn_oil_type r)))
                                 (sales d)));
                     purchases_rows =
                       take 500 (order_by_desc txn_date
                         (filter (\<lambda>r. txn_shop r = shop \<and>
                                       like (lower pat) (lower (txn_oil_type r)))
                                 (purchases d)))
                 in Render (SearchResults q inv_rows sales_rows purchases_rows)
                      (if inv_rows = [] \<and> sales_rows = [] \<and> purchases_rows = []
                       then [NoRecordFound q] else []))
              else Redirect ''dashboard'' [EnterKeyword]))"

text \<open>
  The query as \<open>search\<close> reads it (line 706), and the three result lists of a
  response, as the results page shows them.
\<close>

fun inv_results :: "response \<Rightarrow> inv_row list" where
  "inv_results (Render (SearchResults q i s p) msgs) = i"
| "inv_results _ = []"

fun sales_results :: "response \<Rightarrow> txn list" where
  "sales_results (Render (SearchResults q i s p) msgs) = s"
| "sales_results _ = []"

fun purchases_results :: "response \<Rightarrow> txn list" where
  "purchases_results (Render (SearchResults q i s p) msgs) = p"
| "purchases_results _ = []"

definition search_query :: "form \<Rightarrow> str" where
  "search_query args = strip (case args ''q'' of None \<Rightarrow> [] | Some v \<Rightarrow> v)"

text \<open>
  In the words of the specification: the text \<open>s\<close> contains the query \<open>q\<close> as a
  substring, without regard to (ASCII) case.
\<close>

definition contains_ci :: "str \<Rightarrow> str \<Rightarrow> bool" where
  "contains_ci q s = sublist (lower q) (lower s)"

section \<open>Notions used in the statements\<close>

text \<open>
  The condition under which the two \<open>NOT NULL\<close> columns accept what the upsert
  writes: neither the price nor the quantity to be stored (the floating-point sum of the
  old quantity and the delta, or the delta itself for a new row) is NaN.
\<close>

definition upsert_accepts :: "(real \<Rightarrow> fl) \<Rightarrow> str \<Rightarrow> str \<Rightarrow> str \<Rightarrow> fl \<Rightarrow> fl \<Rightarrow> db \<Rightarrow> bool" where
  "upsert_accepts rnd shop oil un q price d =
     (case find (has_key shop oil un) (inventory d) of
        Some ex \<Rightarrow> fl_add rnd (quantity ex) q \<noteq> NaN \<and> price \<noteq> NaN
      | None \<Rightarrow> q \<noteq> NaN \<and> price \<noteq> NaN)"

text \<open>
  The items of a shop, in the order of the sell form, whose line the first loop of
  \<open>sell\<close> does not pass over.
\<close>

definition sale_lines :: "float_parser \<Rightarrow> form \<Rightarrow> str \<Rightarrow> db \<Rightarrow> inv_row list" where
  "sale_lines pf f shop d =
     filter (\<lambda>it. \<not> fl_le (line_qty pf f (inv_id it)) (Fin 0))
       (sort_key oil_type (filter (\<lambda>r. inv_shop r = shop) (inventory d)))"

text \<open>The entry that the first loop of \<open>sell\<close> collects for an item.\<close>

definition mk_line :: "(real \<Rightarrow> fl) \<Rightarrow> float_parser \<Rightarrow> form \<Rightarrow> inv_row \<Rightarrow> sell_line" where
  "mk_line rnd pf f it =
     \<lparr>inventory_id = inv_id it, sl_oil_type = oil_type it, sl_unit = inv_unit it,
      qty = line_qty pf f (inv_id it), sl_price_per_unit = unit_price it,
      sl_total = fl_mul rnd (line_qty pf f (inv_id it)) (unit_price it)\<rparr>"

text \<open>
  What the second loop of \<open>sell\<close> makes of an inventory row when the items \<open>ls\<close>
  are sold: a row that is not sold stays, a sold row is decremented, and deleted when
  the new quantity is \<open><= 0\<close>.
\<close>

definition sold_row :: "(real \<Rightarrow> fl) \<Rightarrow> float_parser \<Rightarrow> form \<Rightarrow> inv_row list \<Rightarrow> inv_row \<Rightarrow> inv_row option" where
  "sold_row rnd pf f ls r =
     (if inv_id r \<in> inv_id ` set ls
      then (if fl_le (fl_sub rnd (quantity r) (line_qty pf f (inv_id r))) (Fin 0) then None
            else Some (r\<lparr>quantity := fl_sub rnd (quantity r) (line_qty pf f (inv_id r))\<rparr>))
      else Some r)"

text \<open>
  The sale record that the second loop appends for the \<open>k\<close>-th item sold, when the
  last id of \<open>sales\<close> was \<open>seq\<close> at the start of the request.
\<close>

definition sale_record :: "(real \<Rightarrow> fl) \<Rightarrow> float_parser \<Rightarrow> form \<Rightarrow> str \<Rightarrow> (nat \<Rightarrow> str) \<Rightarrow> nat \<Rightarrow> nat \<times> inv_row \<Rightarrow> txn" where
  "sale_record rnd pf f shop now seq =
     (\<lambda>(k, it).
        \<lparr>txn_id = seq + k + 1, txn_shop = shop, txn_oil_type = oil_type it,
         txn_unit = inv_unit it, txn_quantity = line_qty pf f (inv_id it),
         price_per_unit = unit_price it,
         txn_total = fl_mul rnd (line_qty pf f (inv_id it)) (unit_price it), txn_date = now k\<rparr>)"

text \<open>
  In the words of the specification, for one inventory row \<open>r\<close>: a row of the shop
  whose line is not passed over is decremented by the requested amount, and deleted if
  the resulting quantity is \<open><= 0\<close>; every other row is left alone.
\<close>

definition spec_after_sale :: "(real \<Rightarrow> fl) \<Rightarrow> float_parser \<Rightarrow> form \<Rightarrow> str \<Rightarrow> inv_row \<Rightarrow> inv_row option" where
  "spec_after_sale rnd pf f shop r =
     (if inv_shop r = shop \<and> \<not> fl_le (line_qty pf f (inv_id r)) (Fin 0)
      then (if fl_le (fl_sub rnd (quantity r) (line_qty pf f (inv_id r))) (Fin 0) then None
            else Some (r\<lparr>quantity := fl_sub rnd (quantity r) (line_qty pf f (inv_id r))\<rparr>))
      else Some r)"

text \<open>
  A sale record without its id and date, and the content that the specification gives
  the record of an item: the row's \<open>unit_price\<close> as price per unit and the
  (floating-point) product of the requested quantity and that price as total.
\<close>

definition sale_content :: "txn \<Rightarrow> str \<times> str \<times> str \<times> fl \<times> fl \<times> fl" where
  "sale_content t =
     (txn_shop t, txn_oil_type t, txn_unit t, txn_quantity t, price_per_unit t, txn_total t)"

definition spec_sale_content :: "(real \<Rightarrow> fl) \<Rightarrow> float_parser \<Rightarrow> form \<Rightarrow> str \<Rightarrow> inv_row \<Rightarrow> str \<times> str \<times> str \<times> fl \<times> fl \<times> fl" where
  "spec_sale_content rnd pf f shop it =
     (shop, oil_type it, inv_unit it, line_qty pf f (inv_id it), unit_price it,
      fl_mul rnd (line_qty pf f (inv_id it)) (unit_price it))"

section \<open>Example data\<close>

text \<open>
  An empty database; a parser that knows a few numerals, "inf" and "nan"; exact
  arithmetic for \<open>rnd\<close>, which is what rounding does on the small integers of the
  examples.
\<close>

definition empty_db :: db where
  "empty_db = \<lparr>users = [], users_seq = 0, inventory = [], inventory_seq = 0,
               purchases = [], purchases_seq = 0, sales = [], sales_seq = 0,
               purchase_orders = [], purchase_orders_seq = 0\<rparr>"

definition sample_float :: float_parser where
  "sample_float = map_of
     [(lit ''0'', Fin 0), (lit ''1'', Fin 1), (lit ''3'', Fin 3), (lit ''5'', Fin 5),
      (lit ''6'', Fin 6), (lit ''10'', Fin 10), (lit ''12'', Fin 12), (lit ''15'', Fin 15),
      (lit ''20'', Fin 20), (lit ''-3'', Fin (- 3)), (lit ''-5'', Fin (- 5)),
      (lit ''-20'', Fin (- 20)), (lit ''inf'', PInf), (lit ''nan'', NaN)]"

definition sample_hash :: "str \<Rightarrow> str" where
  "sample_hash p = lit ''hash:'' @ p"

text \<open>A database with two registered users and no stock.\<close>

definition bob :: user where
  "bob = \<lparr>user_id = 1, username = lit ''bob'', password_hash = lit ''hash:pw'',
          user_shop = lit ''Bobs''\<rparr>"

definition bob_db :: db where
  "bob_db = empty_db
     \<lparr>users := [bob,
                 \<lparr>user_id = 2, username = lit ''eve'', password_hash = lit ''hash:pw2'',
                  user_shop = lit ''Eves''\<rparr>],
      users_seq := 2\<rparr>"

text \<open>The same with three inventory rows, the last one of another shop.\<close>

definition olive_row :: inv_row where
  "olive_row = \<lparr>inv_id = 1, inv_shop = lit ''Bobs'', oil_type = lit ''olive'',
                inv_unit = lit ''Liters'', quantity = Fin 15, unit_price = Fin 5\<rparr>"

definition castor_row :: inv_row where
  "castor_row = \<lparr>inv_id = 2, inv_shop = lit ''Bobs'', oil_type = lit ''castor'',
                 inv_unit = lit ''Box'', quantity = Fin 10, unit_price = Fin 2\<rparr>"

definition eve_row :: inv_row where
  "eve_row = \<lparr>inv_id = 3, inv_shop = lit ''Eves'', oil_type = lit ''Olive'',
              inv_unit = lit ''Liters'', quantity = Fin 7, unit_price = Fin 9\<rparr>"

definition stock_db :: db where
  "stock_db = bob_db\<lparr>inventory := [olive_row, castor_row, eve_row], inventory_seq := 3\<rparr>"

text \<open>
  The stock database after a manual stock entry of -5 units of a new item (what
  \<open>add_inventory\<close> makes of it), and after one of "inf" units.
\<close>

definition sesame_row :: inv_row where
  "sesame_row = \<lparr>inv_id = 4, inv_shop = lit ''Bobs'', oil_type = lit ''sesame'',
                 inv_unit = lit ''Liters'', quantity = Fin (- 5), unit_price = Fin 3\<rparr>"

definition neg_db :: db where
  "neg_db = stock_db\<lparr>inventory := inventory stock_db @ [sesame_row], inventory_seq := 4\<rparr>"

definition bulk_row :: inv_row where
  "bulk_row = \<lparr>inv_id = 4, inv_shop = lit ''Bobs'', oil_type = lit ''bulk'',
               inv_unit = lit ''Liters'', quantity = PInf, unit_price = Fin 3\<rparr>"

definition inf_db :: db where
  "inf_db = stock_db\<lparr>inventory := inventory stock_db @ [bulk_row], inventory_seq := 4\<rparr>"

text \<open>
  A database whose inventory holds \<open>n\<close> rows of one shop that all match "olive"
  (with different units, as the \<open>UNIQUE\<close> key requires), and one with 501 sales of
  "olive".
\<close>

definition crowded_db :: "nat \<Rightarrow> db" where
  "crowded_db n = bob_db
     \<lparr>inventory :=
        map (\<lambda>i. \<lparr>inv_id = Suc i, inv_shop = lit ''Bobs'', oil_type = lit ''olive'',
                   inv_unit = replicate i 120, quantity = Fin 1, unit_price = Fin 1\<rparr>) [0..<n],
      inventory_seq := n\<rparr>"

definition busy_db :: db where
  "busy_db = stock_db
     \<lparr>sales :=
        map (\<lambda>i. \<lparr>txn_id = Suc i, txn_shop = lit ''Bobs'', txn_oil_type = lit ''olive'',
                   txn_unit = lit ''Liters'', txn_quantity = Fin 1, price_per_unit = Fin 5,
                   txn_total = Fin 5, txn_date = lit ''2024-01-01''\<rparr>) [0..<501],
      sales_seq := 501\<rparr>"

section \<open>Registration: properties\<close>

lemma strip_empty_iff: "strip s = [] \<longleftrightarrow> (\<forall>c\<in>set s. is_space c)"
proof -
  have "strip s = [] \<longleftrightarrow> dropWhile is_space (rev (dropWhile is_space s)) = []"
    by (simp add: strip_def)
  also have "\<dots> \<longleftrightarrow> (\<forall>c\<in>set (dropWhile is_space s). is_space c)"
    by simp
  also have "\<dots> \<longleftrightarrow> dropWhile is_space s = []"
    by (metis dropWhile_eq_Nil_conv dropWhile_idem)
  also have "\<dots> \<longleftrightarrow> (\<forall>c\<in>set s. is_space c)"
    by simp
  finally show ?thesis .
qed

lemma lit_samples:
  "strip (lit '' bob '') = lit ''bob''" "strip (lit ''amy'') = lit ''amy''"
  "strip (lit '' Amys Oil '') = lit ''Amys Oil''" "strip [160, 32, 12288] = []"
  "strip ([160] @ lit ''Amys'' @ [8195]) = lit ''Amys''"
  "lit ''amy'' \<noteq> []" "lit ''pw'' \<noteq> []" "lit ''secret'' \<noteq> []" "lit ''bob'' \<noteq> []"
  "lit ''amy'' \<noteq> lit ''bob''" "lit ''amy'' \<noteq> lit ''eve''"
  by (simp_all add: lit_def strip_def is_space_def)

text \<open>
  C8. A registration whose (stripped) username is already in the \<open>users\<close> table
  fails: the response is a redirect back to the registration form with one flashed
  message ("Username already exists", or "Fill all fields" when a field is empty), and
  the database is returned as it was: no user row is added or changed.
\<close>

theorem register_duplicate_username:
  assumes "strip (form_get f ''username'' []) \<in> set (map username (users d))"
  shows "register gph POST f d =
           (Redirect ''register''
              [if strip (form_get f ''username'' []) = [] \<or> form_get f ''password'' [] = []
               then FillAllFields else UsernameExists], d)"
  using assms by (simp add: register_def Let_def)

theorem register_duplicate_username_witness:
  "strip (form_get [''username'' \<mapsto> lit '' bob '', ''password'' \<mapsto> lit ''secret''] ''username'' [])
     \<in> set (map username (users bob_db)) \<and>
   register sample_hash POST [''username'' \<mapsto> lit '' bob '', ''password'' \<mapsto> lit ''secret''] bob_db =
     (Redirect ''register'' [UsernameExists], bob_db)"
  using register_duplicate_username
    [of "[''username'' \<mapsto> lit '' bob '', ''password'' \<mapsto> lit ''secret'']" bob_db sample_hash]
  by (simp add: form_get_def lit_samples bob_db_def bob_def empty_db_def)

text \<open>
  C10. A successful registration appends one user whose shop name is the literal
  \<open>DefaultShop\<close> when the submitted shop-name field is empty or all whitespace, and
  the submitted name with the surrounding whitespace stripped otherwise. Whitespace is
  what \<open>str.strip\<close> removes: the ASCII blanks and the Unicode ones, such as the
  no-break space (code 160) and the ideographic space (code 12288).
\<close>

theorem register_shop_name:
  assumes "fst (register gph POST f d) = Redirect ''login'' [Registered]"
  shows "\<exists>u. users (snd (register gph POST f d)) = users d @ [u] \<and>
             user_shop u =
               (if \<forall>c\<in>set (form_get f ''shop_name'' []). is_space c then lit ''DefaultShop''
                else strip (form_get f ''shop_name'' []))"
  using assms by (auto simp: register_def Let_def strip_empty_iff split: if_splits)

theorem register_shop_name_witness:
  "fst (register sample_hash POST
          [''username'' \<mapsto> lit ''amy'', ''password'' \<mapsto> lit ''pw'', ''shop_name'' \<mapsto> [160, 32, 12288]]
          bob_db)
     = Redirect ''login'' [Registered] \<and>
   map user_shop (users (snd (register sample_hash POST
          [''username'' \<mapsto> lit ''amy'', ''password'' \<mapsto> lit ''pw'', ''shop_name'' \<mapsto> [160, 32, 12288]]
          bob_db)))
     = [lit ''Bobs'', lit ''Eves'', lit ''DefaultShop''] \<and>
   fst (register sample_hash POST
          [''username'' \<mapsto> lit ''amy'', ''password'' \<mapsto> lit ''pw'',
           ''shop_name'' \<mapsto> [160] @ lit ''Amys'' @ [8195]] bob_db)
     = Redirect ''login'' [Registered] \<and>
   map user_shop (users (snd (register sample_hash POST
          [''username'' \<mapsto> lit ''amy'', ''password'' \<mapsto> lit ''pw'',
           ''shop_name'' \<mapsto> [160] @ lit ''Amys'' @ [8195]] bob_db)))
     = [lit ''Bobs'', lit ''Eves'', lit ''Amys'']"
  using register_shop_name
    [of sample_hash "[''username'' \<mapsto> lit ''amy'', ''password'' \<mapsto> lit ''pw'', ''shop_name'' \<mapsto> [160, 32, 12288]]" bob_db]
    register_shop_name
    [of sample_hash "[''username'' \<mapsto> lit ''amy'', ''password'' \<mapsto> lit ''pw'', ''shop_name'' \<mapsto> [160] @ lit ''Amys'' @ [8195]]" bob_db]
  by (simp add: register_def Let_def form_get_def lit_def strip_def is_space_def bob_db_def bob_def
      empty_db_def)

section \<open>Inventory upsert: properties\<close>

lemma find_map_update:
  assumes "find P xs = Some ex" and "\<And>r. P (g r) = P r"
  shows "find P (map (\<lambda>r. if k r = k ex then g r else r) xs) = Some (g ex)"
  using assms(1)
proof (induction xs)
  case Nil
  then show ?case by simp
next
  case (Cons x xs)
  show ?case
  proof (cases "P x")
    case True
    with Cons.prems have "x = ex" by simp
    with True show ?thesis by (simp add: assms(2))
  next
    case False
    with Cons.prems have "find P xs = Some ex" by simp
    with Cons.IH False show ?thesis by (simp add: assms(2))
  qed
qed

lemma inventory_upsert_rejects:
  "\<not> upsert_accepts rnd shop oil un q price d \<Longrightarrow>
     inventory_upsert rnd shop oil un q price d = Inl IntegrityError"
  by (auto simp: upsert_accepts_def inventory_upsert_def Let_def split: option.splits)

lemma inventory_upsert_accepts:
  "upsert_accepts rnd shop oil un q price d \<Longrightarrow>
     \<exists>d'. inventory_upsert rnd shop oil un q price d = Inr d'"
  by (auto simp: upsert_accepts_def inventory_upsert_def Let_def split: option.splits)

text \<open>
  C3, as amended. The upsert with shop, item, unit, delta quantity and new price. When a
  row with the key \<open>(shop, item, unit)\<close> exists and neither the floating-point sum
  of its quantity and the delta nor the new price is NaN, afterwards the row found under
  that key is the old one with that sum as quantity and with the new price in place of
  the old one (no averaging), and the rows with another id are as before. When no such
  row exists and neither the delta nor the price is NaN, one row with the given quantity
  and price is appended. In the remaining cases the write is refused with
  \<open>IntegrityError\<close>. Nothing stops a negative delta from making the quantity negative.
\<close>

theorem inventory_upsert_effect:
  "(case find (has_key shop oil un) (inventory d) of
      Some ex \<Rightarrow>
        (if fl_add rnd (quantity ex) delta \<noteq> NaN \<and> price \<noteq> NaN
         then \<exists>d'. inventory_upsert rnd shop oil un delta price d = Inr d' \<and>
                find (has_key shop oil un) (inventory d')
                  = Some (ex\<lparr>quantity := fl_add rnd (quantity ex) delta, unit_price := price\<rparr>) \<and>
                inventory d'
                  = map (\<lambda>r. if inv_id r = inv_id ex
                              then r\<lparr>quantity := fl_add rnd (quantity ex) delta,
                                     unit_price := price\<rparr> else r)
                        (inventory d) \<and>
                inventory_seq d' = inventory_seq d
         else inventory_upsert rnd shop oil un delta price d = Inl IntegrityError)
    | None \<Rightarrow>
        (if delta \<noteq> NaN \<and> price \<noteq> NaN
         then \<exists>d'. inventory_upsert rnd shop oil un delta price d = Inr d' \<and>
                inventory d'
                  = inventory d @
                    [\<lparr>inv_id = inventory_seq d + 1, inv_shop = shop, oil_type = oil,
                      inv_unit = un, quantity = delta, unit_price = price\<rparr>] \<and>
                inventory_seq d' = inventory_seq d + 1
         else inventory_upsert rnd shop oil un delta price d = Inl IntegrityError))"
proof (cases "find (has_key shop oil un) (inventory d)")
  case None
  then show ?thesis by (simp add: inventory_upsert_def)
next
  case (Some ex)
  have "find (has_key shop oil un)
          (map (\<lambda>r. if inv_id r = inv_id ex
                     then r\<lparr>quantity := fl_add rnd (quantity ex) delta, unit_price := price\<rparr>
                     else r)
               (inventory d))
        = Some (ex\<lparr>quantity := fl_add rnd (quantity ex) delta, unit_price := price\<rparr>)"
    using find_map_update [OF Some,
        of "\<lambda>r. r\<lparr>quantity := fl_add rnd (quantity ex) delta, unit_price := price\<rparr>" inv_id]
    by (simp add: has_key_def)
  with Some show ?thesis by (simp add: inventory_upsert_def Let_def)
qed

lemma sample_float_values:
  "sample_float (lit ''0'') = Some (Fin 0)" "sample_float (lit ''5'') = Some (Fin 5)"
  "sample_float (lit ''6'') = Some (Fin 6)" "sample_float (lit ''10'') = Some (Fin 10)"
  "sample_float (lit ''12'') = Some (Fin 12)" "sample_float (lit ''20'') = Some (Fin 20)"
  "sample_float (lit ''3'') = Some (Fin 3)"
  "sample_float (lit ''-3'') = Some (Fin (- 3))" "sample_float (lit ''-5'') = Some (Fin (- 5))"
  "sample_float (lit ''inf'') = Some PInf" "sample_float (lit ''nan'') = Some NaN"
  "sample_float (lit ''abc'') = None"
  by (simp_all add: sample_float_def lit_def)

lemma lit_nonempty:
  "lit ''0'' \<noteq> []" "lit ''5'' \<noteq> []" "lit ''6'' \<noteq> []" "lit ''10'' \<noteq> []" "lit ''12'' \<noteq> []"
  "lit ''20'' \<noteq> []" "lit ''3'' \<noteq> []" "lit ''-3'' \<noteq> []" "lit ''-5'' \<noteq> []" "lit ''inf'' \<noteq> []"
  "lit ''nan'' \<noteq> []" "lit ''abc'' \<noteq> []"
  by (simp_all add: lit_def)

lemma strip_lit_samples:
  "strip (lit ''olive'') = lit ''olive''" "strip (lit ''sesame'') = lit ''sesame''"
  "strip (lit ''bulk'') = lit ''bulk''"
  "strip (lit ''0'') = lit ''0''" "strip (lit ''5'') = lit ''5''" "strip (lit ''10'') = lit ''10''"
  "strip (lit ''12'') = lit ''12''" "strip (lit ''20'') = lit ''20''"
  "strip (lit ''-3'') = lit ''-3''" "strip (lit ''inf'') = lit ''inf''"
  "strip (lit ''nan'') = lit ''nan''" "strip (lit ''abc'') = lit ''abc''"
  by (simp_all add: lit_def strip_def is_space_def)

lemma lit_distinct:
  "lit ''Bobs'' \<noteq> lit ''Eves''" "lit ''Eves'' \<noteq> lit ''Bobs''"
  "lit ''olive'' \<noteq> lit ''castor''" "lit ''castor'' \<noteq> lit ''olive''"
  "lit ''olive'' \<noteq> lit ''sesame''" "lit ''castor'' \<noteq> lit ''sesame''"
  "lit ''olive'' \<noteq> lit ''bulk''" "lit ''castor'' \<noteq> lit ''bulk''"
  "lit ''Box'' \<noteq> lit ''Liters''" "lit ''Liters'' \<noteq> lit ''Box''"
  by (simp_all add: lit_def)

lemma bob_logged_in:
  "current_user (Some 1) bob_db = Some bob"
  "current_user (Some 1) stock_db = Some bob"
  "current_user (Some 1) neg_db = Some bob"
  "current_user (Some 1) inf_db = Some bob"
  "current_user (Some 1) busy_db = Some bob"
  "current_user (Some 1) (crowded_db n) = Some bob"
  by (simp_all add: current_user_def bob_db_def stock_db_def neg_db_def inf_db_def busy_db_def
      crowded_db_def bob_def)

lemma bob_shop [simp]: "user_shop bob = lit ''Bobs''"
  by (simp add: bob_def)

lemma stock_tables:
  "inventory stock_db = [olive_row, castor_row, eve_row]" "inventory_seq stock_db = 3"
  "inventory bob_db = []" "inventory_seq bob_db = 0"
  "purchases bob_db = []" "purchases_seq bob_db = 0"
  "purchases stock_db = []" "purchases_seq stock_db = 0"
  "sales stock_db = []" "sales_seq stock_db = 0"
  "purchase_orders bob_db = []" "purchase_orders_seq bob_db = 0"
  by (simp_all add: stock_db_def bob_db_def empty_db_def)

lemma row_fields [simp]:
  "inv_id olive_row = 1" "inv_shop olive_row = lit ''Bobs''" "oil_type olive_row = lit ''olive''"
  "inv_unit olive_row = lit ''Liters''" "quantity olive_row = Fin 15" "unit_price olive_row = Fin 5"
  "inv_id castor_row = 2" "inv_shop castor_row = lit ''Bobs''" "oil_type castor_row = lit ''castor''"
  "inv_unit castor_row = lit ''Box''" "quantity castor_row = Fin 10" "unit_price castor_row = Fin 2"
  "inv_id eve_row = 3" "inv_shop eve_row = lit ''Eves''" "oil_type eve_row = lit ''Olive''"
  "inv_unit eve_row = lit ''Liters''" "quantity eve_row = Fin 7" "unit_price eve_row = Fin 9"
  by (simp_all add: olive_row_def castor_row_def eve_row_def)

theorem inventory_upsert_effect_witness:
  "inventory_upsert Fin (lit ''Bobs'') (lit ''olive'') (lit ''Liters'') (Fin 5) (Fin 6) stock_db =
     Inr (stock_db\<lparr>inventory :=
            [olive_row\<lparr>quantity := Fin 20, unit_price := Fin 6\<rparr>, castor_row, eve_row]\<rparr>) \<and>
   inventory_upsert Fin (lit ''Bobs'') (lit ''olive'') (lit ''Liters'') (Fin (- 20)) (Fin 6) stock_db =
     Inr (stock_db\<lparr>inventory :=
            [olive_row\<lparr>quantity := Fin (- 5), unit_price := Fin 6\<rparr>, castor_row, eve_row]\<rparr>) \<and>
   inventory_upsert Fin (lit ''Bobs'') (lit ''olive'') (lit ''Liters'') (Fin 10) (Fin 5) bob_db =
     Inr (bob_db\<lparr>inventory :=
            [\<lparr>inv_id = 1, inv_shop = lit ''Bobs'', oil_type = lit ''olive'',
              inv_unit = lit ''Liters'', quantity = Fin 10, unit_price = Fin 5\<rparr>],
          inventory_seq := 1\<rparr>)"
proof -
  have f1: "find (has_key (lit ''Bobs'') (lit ''olive'') (lit ''Liters'')) (inventory stock_db)
              = Some olive_row"
    by (simp add: stock_tables has_key_def)
  have f2: "find (has_key (lit ''Bobs'') (lit ''olive'') (lit ''Liters'')) (inventory bob_db) = None"
    by (simp add: stock_tables)
  have a: "inventory_upsert Fin (lit ''Bobs'') (lit ''olive'') (lit ''Liters'') (Fin 5) (Fin 6) stock_db =
     Inr (stock_db\<lparr>inventory :=
            [olive_row\<lparr>quantity := Fin 20, unit_price := Fin 6\<rparr>, castor_row, eve_row]\<rparr>)"
    using inventory_upsert_effect [where rnd = Fin and shop = "lit ''Bobs''" and oil = "lit ''olive''"
        and un = "lit ''Liters''" and d = stock_db and delta = "Fin 5" and price = "Fin 6"]
    by (simp add: inventory_upsert_def stock_tables has_key_def)
  have b: "inventory_upsert Fin (lit ''Bobs'') (lit ''olive'') (lit ''Liters'') (Fin (- 20)) (Fin 6) stock_db =
     Inr (stock_db\<lparr>inventory :=
            [olive_row\<lparr>quantity := Fin (- 5), unit_price := Fin 6\<rparr>, castor_row, eve_row]\<rparr>)"
    by (simp add: inventory_upsert_def stock_tables has_key_def)
  have c: "inventory_upsert Fin (lit ''Bobs'') (lit ''olive'') (lit ''Liters'') (Fin 10) (Fin 5) bob_db =
     Inr (bob_db\<lparr>inventory :=
            [\<lparr>inv_id = 1, inv_shop = lit ''Bobs'', oil_type = lit ''olive'',
              inv_unit = lit ''Liters'', quantity = Fin 10, unit_price = Fin 5\<rparr>],
          inventory_seq := 1\<rparr>)"
    by (simp add: inventory_upsert_def stock_tables has_key_def)
  show ?thesis using a b c by blast
qed

text \<open>
  C3 as stated fails where the delta is NaN, which \<open>float\<close> returns for the field
  "nan": a row with the key exists, but its quantity does not become old + delta; the
  \<open>UPDATE\<close> is refused and the request ends with the uncaught \<open>IntegrityError\<close>,
  the database as it was.
\<close>

theorem inventory_upsert_nan_counterexample:
  "find (has_key (lit ''Bobs'') (lit ''olive'') (lit ''Liters'')) (inventory stock_db)
     = Some olive_row \<and>
   inventory_upsert Fin (lit ''Bobs'') (lit ''olive'') (lit ''Liters'') NaN (Fin 6) stock_db
     = Inl IntegrityError \<and>
   sample_float (lit ''nan'') = Some NaN \<and>
   add_inventory Fin sample_float (Some 1) POST
     [''oil_type'' \<mapsto> lit ''olive'', ''quantity'' \<mapsto> lit ''nan'', ''price'' \<mapsto> lit ''6''] stock_db
     = (InternalServerError IntegrityError, stock_db)"
proof -
  have f1: "find (has_key (lit ''Bobs'') (lit ''olive'') (lit ''Liters'')) (inventory stock_db)
              = Some olive_row"
    by (simp add: stock_tables has_key_def)
  have u: "inventory_upsert Fin (lit ''Bobs'') (lit ''olive'') (lit ''Liters'') NaN (Fin 6) stock_db
     = Inl IntegrityError"
    by (simp add: inventory_upsert_def stock_tables has_key_def)
  have "add_inventory Fin sample_float (Some 1) POST
     [''oil_type'' \<mapsto> lit ''olive'', ''quantity'' \<mapsto> lit ''nan'', ''price'' \<mapsto> lit ''6''] stock_db
     = (InternalServerError IntegrityError, stock_db)"
    by (simp del: One_nat_def
        add: add_inventory_def bob_logged_in Let_def form_get_def strip_lit_samples
          float_or_zero_def lit_nonempty sample_float_values u)
  with f1 u show ?thesis by (simp add: sample_float_values)
qed

section \<open>Purchases: properties\<close>

lemma inventory_upsert_purchases_update:
  "inventory_upsert rnd shop oil un q p (d\<lparr>purchases := ps, purchases_seq := n\<rparr>) =
     (case inventory_upsert rnd shop oil un q p d of
        Inl e \<Rightarrow> Inl e
      | Inr d' \<Rightarrow> Inr (d'\<lparr>purchases := ps, purchases_seq := n\<rparr>))"
  by (simp add: inventory_upsert_def Let_def split: option.split)

lemma inventory_upsert_accepts_iff:
  "upsert_accepts rnd shop oil un q p d \<longleftrightarrow>
     (\<exists>d'. inventory_upsert rnd shop oil un q p d = Inr d')"
  by (auto simp: upsert_accepts_def inventory_upsert_def Let_def split: option.splits)

text \<open>
  C4. For a logged-in user and the quantity \<open>q\<close> and price \<open>p\<close> read from the form,
  \<open>purchase\<close> records the purchase exactly when the inventory upsert with delta
  \<open>q\<close> and price \<open>p\<close> goes through. A recorded purchase appends exactly one row to
  \<open>purchases\<close>, with the floating-point product of \<open>q\<close> and \<open>p\<close> as total, and
  leaves the inventory as that upsert leaves it; the other tables are untouched. When the
  upsert is refused the request ends with the uncaught \<open>IntegrityError\<close> and nothing
  is recorded: the log row and the inventory write are one transaction.
\<close>

theorem purchase_records_and_upserts:
  fixes pf :: float_parser and f :: form
  assumes "current_user sess d = Some u"
    and "shop = user_shop u"
    and "oil = strip (form_get f ''oil_type'' [])"
    and "un = form_get f ''unit'' (lit ''Liters'')"
    and "q = float_or_zero pf (form_get f ''quantity'' (lit ''0''))"
    and "p = float_or_zero pf (form_get f ''price'' (lit ''0''))"
  shows "(case inventory_upsert rnd shop oil un q p d of
            Inl e \<Rightarrow> purchase rnd pf now sess POST f d = (InternalServerError e, d)
          | Inr d' \<Rightarrow>
              purchase rnd pf now sess POST f d =
                (Redirect ''dashboard'' [PurchaseRecorded],
                 d'\<lparr>purchases := purchases d @
                        [\<lparr>txn_id = purchases_seq d + 1, txn_shop = shop, txn_oil_type = oil,
                          txn_unit = un, txn_quantity = q, price_per_unit = p,
                          txn_total = fl_mul rnd q p, txn_date = now\<rparr>],
                      purchases_seq := purchases_seq d + 1\<rparr>)) \<and>
         (upsert_accepts rnd shop oil un q p d \<longleftrightarrow>
            (\<exists>d'. inventory_upsert rnd shop oil un q p d = Inr d'))"
proof -
  have "upsert_accepts rnd shop oil un q p d \<longleftrightarrow>
            (\<exists>d'. inventory_upsert rnd shop oil un q p d = Inr d')"
    by (rule inventory_upsert_accepts_iff)
  moreover have "(case inventory_upsert rnd shop oil un q p d of
            Inl e \<Rightarrow> purchase rnd pf now sess POST f d = (InternalServerError e, d)
          | Inr d' \<Rightarrow>
              purchase rnd pf now sess POST f d =
                (Redirect ''dashboard'' [PurchaseRecorded],
                 d'\<lparr>purchases := purchases d @
                        [\<lparr>txn_id = purchases_seq d + 1, txn_shop = shop, txn_oil_type = oil,
                          txn_unit = un, txn_quantity = q, price_per_unit = p,
                          txn_total = fl_mul rnd q p, txn_date = now\<rparr>],
                      purchases_seq := purchases_seq d + 1\<rparr>))"
    using assms
    by (simp add: purchase_def Let_def inventory_upsert_purchases_update split: sum.split)
  ultimately show ?thesis by blast
qed

theorem purchase_records_and_upserts_witness:
  "purchase Fin sample_float (lit ''2024-01-01T10:00:00'') (Some 1) POST
      [''oil_type'' \<mapsto> lit ''olive'', ''quantity'' \<mapsto> lit ''10'', ''price'' \<mapsto> lit ''5''] bob_db =
   (Redirect ''dashboard'' [PurchaseRecorded],
    bob_db
      \<lparr>inventory :=
         [\<lparr>inv_id = 1, inv_shop = lit ''Bobs'', oil_type = lit ''olive'',
           inv_unit = lit ''Liters'', quantity = Fin 10, unit_price = Fin 5\<rparr>],
       inventory_seq := 1,
       purchases :=
         [\<lparr>txn_id = 1, txn_shop = lit ''Bobs'', txn_oil_type = lit ''olive'',
           txn_unit = lit ''Liters'', txn_quantity = Fin 10, price_per_unit = Fin 5,
           txn_total = Fin 50, txn_date = lit ''2024-01-01T10:00:00''\<rparr>],
       purchases_seq := 1\<rparr>)"
proof -
  let ?f = "[''oil_type'' \<mapsto> lit ''olive'', ''quantity'' \<mapsto> lit ''10'', ''price'' \<mapsto> lit ''5'']"
  have q: "float_or_zero sample_float (form_get ?f ''quantity'' (lit ''0'')) = Fin 10"
    and p: "float_or_zero sample_float (form_get ?f ''price'' (lit ''0'')) = Fin 5"
    and oil: "strip (form_get ?f ''oil_type'' []) = lit ''olive''"
    and un: "form_get ?f ''unit'' (lit ''Liters'') = lit ''Liters''"
    by (simp_all add: float_or_zero_def form_get_def sample_float_values lit_nonempty
        strip_lit_samples)
  have up: "inventory_upsert Fin (lit ''Bobs'') (lit ''olive'') (lit ''Liters'') (Fin 10) (Fin 5) bob_db =
     Inr (bob_db\<lparr>inventory :=
            [\<lparr>inv_id = 1, inv_shop = lit ''Bobs'', oil_type = lit ''olive'',
              inv_unit = lit ''Liters'', quantity = Fin 10, unit_price = Fin 5\<rparr>],
          inventory_seq := 1\<rparr>)"
    by (simp add: inventory_upsert_def stock_tables has_key_def)
  show ?thesis
    using purchase_records_and_upserts [OF bob_logged_in(1) refl oil [symmetric] un [symmetric]
        q [symmetric] p [symmetric], where rnd = Fin and now = "lit ''2024-01-01T10:00:00''"]
    by (simp del: One_nat_def add: up stock_tables)
qed

text \<open>A purchase with the quantity field "nan" is not recorded.\<close>

lemma purchase_nan_not_recorded:
  "sample_float (lit ''nan'') = Some NaN \<and>
   purchase Fin sample_float (lit ''2024-01-01T10:00:00'') (Some 1) POST
      [''oil_type'' \<mapsto> lit ''olive'', ''quantity'' \<mapsto> lit ''nan'', ''price'' \<mapsto> lit ''5''] bob_db =
   (InternalServerError IntegrityError, bob_db)"
  by (simp del: One_nat_def
      add: purchase_def bob_logged_in Let_def form_get_def strip_lit_samples float_or_zero_def
        lit_nonempty sample_float_values inventory_upsert_def stock_tables)

section \<open>Numeric fields that do not parse\<close>

lemma float_or_zero_non_numeric: "pf raw = None \<Longrightarrow> float_or_zero pf raw = Fin 0"
  by (simp add: float_or_zero_def)

lemma float_or_zero_zero: "pf z = Some (Fin 0) \<Longrightarrow> float_or_zero pf z = Fin 0"
  by (simp add: float_or_zero_def)

lemma add_inventory_response:
  assumes "current_user sess d = Some u"
  shows "fst (add_inventory rnd pf sess POST f d) =
           (if upsert_accepts rnd (user_shop u) (strip (form_get f ''oil_type'' []))
                 (form_get f ''unit'' (lit ''Liters''))
                 (float_or_zero pf (form_get f ''quantity'' (lit ''0'')))
                 (float_or_zero pf (form_get f ''price'' (lit ''0''))) d
            then Redirect ''inventory'' [StockUpdated]
            else InternalServerError IntegrityError)"
proof (cases "upsert_accepts rnd (user_shop u) (strip (form_get f ''oil_type'' []))
                 (form_get f ''unit'' (lit ''Liters''))
                 (float_or_zero pf (form_get f ''quantity'' (lit ''0'')))
                 (float_or_zero pf (form_get f ''price'' (lit ''0''))) d")
  case True
  then obtain d' where "inventory_upsert rnd (user_shop u) (strip (form_get f ''oil_type'' []))
                 (form_get f ''unit'' (lit ''Liters''))
                 (float_or_zero pf (form_get f ''quantity'' (lit ''0'')))
                 (float_or_zero pf (form_get f ''price'' (lit ''0''))) d = Inr d'"
    using inventory_upsert_accepts by blast
  with True assms show ?thesis by (simp add: add_inventory_def Let_def)
next
  case False
  then have "inventory_upsert rnd (user_shop u) (strip (form_get f ''oil_type'' []))
                 (form_get f ''unit'' (lit ''Liters''))
                 (float_or_zero pf (form_get f ''quantity'' (lit ''0'')))
                 (float_or_zero pf (form_get f ''price'' (lit ''0''))) d = Inl IntegrityError"
    by (rule inventory_upsert_rejects)
  with False assms show ?thesis by (simp add: add_inventory_def Let_def)
qed

lemma purchase_response:
  assumes "current_user sess d = Some u"
  shows "fst (purchase rnd pf now sess POST f d) =
           (if upsert_accepts rnd (user_shop u) (strip (form_get f ''oil_type'' []))
                 (form_get f ''unit'' (lit ''Liters''))
                 (float_or_zero pf (form_get f ''quantity'' (lit ''0'')))
                 (float_or_zero pf (form_get f ''price'' (lit ''0''))) d
            then Redirect ''dashboard'' [PurchaseRecorded]
            else InternalServerError IntegrityError)"
proof (cases "upsert_accepts rnd (user_shop u) (strip (form_get f ''oil_type'' []))
                 (form_get f ''unit'' (lit ''Liters''))
                 (float_or_zero pf (form_get f ''quantity'' (lit ''0'')))
                 (float_or_zero pf (form_get f ''price'' (lit ''0''))) d")
  case True
  then obtain d' where "inventory_upsert rnd (user_shop u) (strip (form_get f ''oil_type'' []))
                 (form_get f ''unit'' (lit ''Liters''))
                 (float_or_zero pf (form_get f ''quantity'' (lit ''0'')))
                 (float_or_zero pf (form_get f ''price'' (lit ''0''))) d = Inr d'"
    using inventory_upsert_accepts by blast
  with True show ?thesis
    using purchase_records_and_upserts [OF assms refl refl refl refl refl, where rnd = rnd and pf = pf and f = f and now = now]
    by simp
next
  case False
  then have "inventory_upsert rnd (user_shop u) (strip (form_get f ''oil_type'' []))
                 (form_get f ''unit'' (lit ''Liters''))
                 (float_or_zero pf (form_get f ''quantity'' (lit ''0'')))
                 (float_or_zero pf (form_get f ''price'' (lit ''0''))) d = Inl IntegrityError"
    by (rule inventory_upsert_rejects)
  with False show ?thesis
    using purchase_records_and_upserts [OF assms refl refl refl refl refl, where rnd = rnd and pf = pf and f = f and now = now]
    by simp
qed




section \<open>Sale processing: skipped lines and insufficient stock\<close>

lemma fl_lt_not_le: "fl_lt a b \<Longrightarrow> \<not> fl_le b a"
  by (cases a; cases b) simp_all

lemma fl_le_zero_zero [simp]: "fl_le (Fin 0) (Fin 0)"
  by simp

lemma spec_skipped_line_iff:
  "spec_skipped_line pf f it \<longleftrightarrow> fl_le (line_qty pf f (inv_id it)) (Fin 0)"
  by (auto simp: spec_skipped_line_def line_qty_def Let_def split: option.splits)

lemma collect_sells_step:
  "collect_sells rnd pf f d (it # its) sells =
     (if fl_le (line_qty pf f (inv_id it)) (Fin 0) then collect_sells rnd pf f d its sells
      else (case find (\<lambda>r. inv_id r = inv_id it) (inventory d) of
              None \<Rightarrow> Inl (ItemNotFound (oil_type it))
            | Some row \<Rightarrow>
                if fl_lt (quantity row) (line_qty pf f (inv_id it))
                then Inl (NotEnoughStock (oil_type row) (inv_unit row) (quantity row))
                else collect_sells rnd pf f d its
                       (sells @
                        [\<lparr>inventory_id = inv_id row, sl_oil_type = oil_type row,
                          sl_unit = inv_unit row, qty = line_qty pf f (inv_id it),
                          sl_price_per_unit = unit_price row,
                          sl_total = fl_mul rnd (line_qty pf f (inv_id it)) (unit_price row)\<rparr>])))"
  by (simp add: line_qty_def Let_def split: option.split)

lemma collect_sells_all_skipped:
  "\<forall>it\<in>set its. fl_le (line_qty pf f (inv_id it)) (Fin 0) \<Longrightarrow>
     collect_sells rnd pf f d its sells = Inr sells"
  by (induction its) (simp_all add: collect_sells_step del: collect_sells.simps(2))

lemma find_by_id:
  assumes "distinct (map inv_id xs)" and "x \<in> set xs"
  shows "find (\<lambda>r. inv_id r = inv_id x) xs = Some x"
  using assms by (induction xs) (auto simp: image_iff)

text \<open>
  C9. A line whose quantity field is empty, does not parse, or parses to a value that is
  not positive is passed over by the first loop of \<open>sell\<close>: the loop goes on with the
  remaining items and the lines collected so far. When every line of the shop's items is
  passed over, the sale fails with "No items selected for sale" and the database is
  returned as it was.
\<close>

theorem skipped_lines:
  "(spec_skipped_line pf f it \<longrightarrow>
      collect_sells rnd pf f d (it # its) sells = collect_sells rnd pf f d its sells) \<and>
   (current_user sess d = Some u \<and>
    (\<forall>it\<in>set (inventory d). inv_shop it = user_shop u \<longrightarrow> spec_skipped_line pf f it) \<longrightarrow>
      sell rnd pf now sess POST f d = (Redirect ''sell'' [NoItemsSelected], d))"
proof (intro conjI impI)
  assume "spec_skipped_line pf f it"
  then show "collect_sells rnd pf f d (it # its) sells = collect_sells rnd pf f d its sells"
    by (simp add: collect_sells_step spec_skipped_line_iff del: collect_sells.simps(2))
next
  assume a: "current_user sess d = Some u \<and>
    (\<forall>it\<in>set (inventory d). inv_shop it = user_shop u \<longrightarrow> spec_skipped_line pf f it)"
  let ?items = "sort_key oil_type (filter (\<lambda>r. inv_shop r = user_shop u) (inventory d))"
  have "\<forall>it\<in>set ?items. fl_le (line_qty pf f (inv_id it)) (Fin 0)"
    using a by (auto simp: spec_skipped_line_iff)
  then have "collect_sells rnd pf f d ?items [] = Inr []"
    by (rule collect_sells_all_skipped)
  with a show "sell rnd pf now sess POST f d = (Redirect ''sell'' [NoItemsSelected], d)"
    by (simp add: sell_def Let_def)
qed

lemma collect_sells_insufficient:
  assumes "\<forall>x\<in>set its. find (\<lambda>r. inv_id r = inv_id x) (inventory d) = Some x"
    and "it \<in> set its" and "fl_lt (Fin 0) (line_qty pf f (inv_id it))"
    and "fl_lt (quantity it) (line_qty pf f (inv_id it))"
  shows "\<exists>a b c. collect_sells rnd pf f d its sells = Inl (NotEnoughStock a b c)"
  using assms
proof (induction its arbitrary: sells)
  case Nil
  then show ?case by simp
next
  case (Cons x xs)
  have fx: "find (\<lambda>r. inv_id r = inv_id x) (inventory d) = Some x"
    using Cons.prems(1) by simp
  show ?case
  proof (cases "\<not> fl_le (line_qty pf f (inv_id x)) (Fin 0) \<and>
                fl_lt (quantity x) (line_qty pf f (inv_id x))")
    case True
    then show ?thesis
      by (simp add: collect_sells_step fx del: collect_sells.simps(2))
  next
    case False
    with Cons.prems(3,4) have "it \<noteq> x" by (auto dest: fl_lt_not_le)
    with Cons.prems have "it \<in> set xs" by auto
    with Cons.IH Cons.prems
    have ih: "\<And>sells. \<exists>a b c. collect_sells rnd pf f d xs sells = Inl (NotEnoughStock a b c)"
      by simp
    from False show ?thesis
      using ih by (auto simp add: collect_sells_step fx simp del: collect_sells.simps(2))
  qed
qed

text \<open>
  C1, as amended. When some item of the caller's shop has a line that requests a positive
  quantity strictly above the row's current quantity, the sale is aborted: the response
  redirects to the sell form with a "Not enough stock" message and the database is
  returned as it was. (Ids are the primary key of \<open>inventory\<close>, hence distinct.)
\<close>

theorem insufficient_stock_aborts:
  assumes "current_user sess d = Some u"
    and "distinct (map inv_id (inventory d))"
    and "it \<in> set (inventory d)" and "inv_shop it = user_shop u"
    and "fl_lt (Fin 0) (line_qty pf f (inv_id it))"
    and "fl_lt (quantity it) (line_qty pf f (inv_id it))"
  shows "\<exists>a b c. sell rnd pf now sess POST f d = (Redirect ''sell'' [NotEnoughStock a b c], d)"
proof -
  let ?items = "sort_key oil_type (filter (\<lambda>r. inv_shop r = user_shop u) (inventory d))"
  have "\<forall>x\<in>set ?items. find (\<lambda>r. inv_id r = inv_id x) (inventory d) = Some x"
    using assms(2) by (auto intro: find_by_id)
  moreover have "it \<in> set ?items" using assms(3,4) by simp
  ultimately obtain a b c where
    "collect_sells rnd pf f d ?items [] = Inl (NotEnoughStock a b c)"
    using collect_sells_insufficient [of ?items d it pf f rnd "[]"] assms(5,6) by blast
  with assms(1) show ?thesis by (simp add: sell_def Let_def)
qed

lemma qty_field_samples:
  "qty_field (Suc 0) = ''qty_1''" "qty_field 1 = ''qty_1''" "qty_field 2 = ''qty_2''"
  "qty_field 3 = ''qty_3''" "qty_field 4 = ''qty_4''"
  by code_simp+

lemma strip_Nil [simp]: "strip [] = []"
  by (simp add: strip_def)

lemma sell_POST_ok:
  assumes "current_user sess d = Some u"
    and "collect_sells rnd pf f d
           (sort_key oil_type (filter (\<lambda>r. inv_shop r = user_shop u) (inventory d))) [] = Inr sells"
    and "sells \<noteq> []"
    and "perform_sells rnd (user_shop u) now 0 sells d = Inr d'"
  shows "sell rnd pf now sess POST f d = (Redirect ''dashboard'' [SaleRecorded], d')"
  using assms by (simp add: sell_def Let_def)

lemma sell_POST_error:
  assumes "current_user sess d = Some u"
    and "collect_sells rnd pf f d
           (sort_key oil_type (filter (\<lambda>r. inv_shop r = user_shop u) (inventory d))) [] = Inr sells"
    and "sells \<noteq> []"
    and "perform_sells rnd (user_shop u) now 0 sells d = Inl e"
  shows "sell rnd pf now sess POST f d = (Redirect ''sell'' [ErrorRecordingSale e], d)"
  using assms by (simp add: sell_def Let_def)

lemma more_row_fields [simp]:
  "inv_id sesame_row = 4" "inv_shop sesame_row = lit ''Bobs''" "oil_type sesame_row = lit ''sesame''"
  "inv_unit sesame_row = lit ''Liters''" "quantity sesame_row = Fin (- 5)"
  "unit_price sesame_row = Fin 3"
  "inv_id bulk_row = 4" "inv_shop bulk_row = lit ''Bobs''" "oil_type bulk_row = lit ''bulk''"
  "inv_unit bulk_row = lit ''Liters''" "quantity bulk_row = PInf" "unit_price bulk_row = Fin 3"
  by (simp_all add: sesame_row_def bulk_row_def)

lemma more_tables:
  "inventory neg_db = [olive_row, castor_row, eve_row, sesame_row]"
  "inventory inf_db = [olive_row, castor_row, eve_row, bulk_row]"
  "sales neg_db = []" "sales_seq neg_db = 0" "sales inf_db = []" "sales_seq inf_db = 0"
  by (simp_all add: neg_db_def inf_db_def stock_tables)

lemma shop_items:
  "sort_key oil_type (filter (\<lambda>r. inv_shop r = lit ''Bobs'') (inventory stock_db)) =
     [castor_row, olive_row]"
  "sort_key oil_type (filter (\<lambda>r. inv_shop r = lit ''Bobs'') (inventory neg_db)) =
     [castor_row, olive_row, sesame_row]"
  "sort_key oil_type (filter (\<lambda>r. inv_shop r = lit ''Bobs'') (inventory inf_db)) =
     [bulk_row, castor_row, olive_row]"
  by (simp_all add: stock_tables more_tables lit_def)

theorem skipped_lines_witness:
  "sell Fin sample_float (\<lambda>k. lit ''t'') (Some 1) POST
      [''qty_1'' \<mapsto> lit ''abc'', ''qty_2'' \<mapsto> lit ''-3''] stock_db
     = (Redirect ''sell'' [NoItemsSelected], stock_db) \<and>
   collect_sells Fin sample_float [''qty_1'' \<mapsto> lit ''abc'', ''qty_2'' \<mapsto> lit ''-3''] stock_db
     [castor_row] [] = Inr []"
proof -
  let ?f = "[''qty_1'' \<mapsto> lit ''abc'', ''qty_2'' \<mapsto> lit ''-3'']"
  have sk: "\<forall>it\<in>set (inventory stock_db).
              inv_shop it = user_shop bob \<longrightarrow> spec_skipped_line sample_float ?f it"
    by (simp add: stock_tables spec_skipped_line_def qty_field_samples form_get_def
        strip_lit_samples sample_float_values lit_nonempty)
  have s2: "spec_skipped_line sample_float ?f castor_row"
    using sk by (simp add: stock_tables)
  show ?thesis
    using skipped_lines [where pf = sample_float and f = ?f and d = stock_db and sess = "Some 1"
        and its = "[]" and sells = "[]" and now = "\<lambda>k. lit ''t''" and it = castor_row
        and u = bob and rnd = Fin] sk s2 bob_logged_in(2)
    by (simp del: collect_sells.simps(2) One_nat_def)
qed

theorem insufficient_stock_aborts_witness:
  "snd (sell Fin sample_float (\<lambda>k. lit ''t'') (Some 1) POST
          [''qty_1'' \<mapsto> lit ''20'', ''qty_2'' \<mapsto> lit ''5''] stock_db)
     = stock_db \<and>
   (\<exists>a b c. fst (sell Fin sample_float (\<lambda>k. lit ''t'') (Some 1) POST
                   [''qty_1'' \<mapsto> lit ''20'', ''qty_2'' \<mapsto> lit ''5''] stock_db)
            = Redirect ''sell'' [NotEnoughStock a b c])"
proof -
  let ?f = "[''qty_1'' \<mapsto> lit ''20'', ''qty_2'' \<mapsto> lit ''5'']"
  have q: "line_qty sample_float ?f (inv_id olive_row) = Fin 20"
    by (simp add: line_qty_def qty_field_samples form_get_def strip_lit_samples
        sample_float_values lit_nonempty)
  have "\<exists>a b c. sell Fin sample_float (\<lambda>k. lit ''t'') (Some 1) POST ?f stock_db
                 = (Redirect ''sell'' [NotEnoughStock a b c], stock_db)"
  proof (rule insufficient_stock_aborts [where it = olive_row])
    show "current_user (Some 1) stock_db = Some bob" by (rule bob_logged_in)
    show "distinct (map inv_id (inventory stock_db))" by (simp add: stock_tables)
    show "olive_row \<in> set (inventory stock_db)" by (simp add: stock_tables)
    show "inv_shop olive_row = user_shop bob" by simp
    show "fl_lt (Fin 0) (line_qty sample_float ?f (inv_id olive_row))" unfolding q by simp
    show "fl_lt (quantity olive_row) (line_qty sample_float ?f (inv_id olive_row))"
      unfolding q by simp
  qed
  then show ?thesis by auto
qed

text \<open>
  C1 as stated fails where a manual stock entry has made a quantity negative: a line
  asking for -3 units of a row holding -5 asks for more than the row holds, but it is
  passed over since -3 is not positive, and the sale of the other line goes through.
\<close>

theorem insufficient_stock_negative_counterexample:
  "sesame_row \<in> set (inventory neg_db) \<and> inv_shop sesame_row = lit ''Bobs'' \<and>
   sample_float (strip (form_get [''qty_4'' \<mapsto> lit ''-3'', ''qty_1'' \<mapsto> lit ''12'']
                          (qty_field (inv_id sesame_row)) []))
     = Some (Fin (- 3)) \<and>
   fl_lt (quantity sesame_row) (Fin (- 3)) \<and>
   sell Fin sample_float (\<lambda>k. lit ''t'') (Some 1) POST
      [''qty_4'' \<mapsto> lit ''-3'', ''qty_1'' \<mapsto> lit ''12''] neg_db
     = (Redirect ''dashboard'' [SaleRecorded],
        neg_db\<lparr>inventory := [olive_row\<lparr>quantity := Fin 3\<rparr>, castor_row, eve_row, sesame_row],
          sales := [\<lparr>txn_id = 1, txn_shop = lit ''Bobs'', txn_oil_type = lit ''olive'',
            txn_unit = lit ''Liters'', txn_quantity = Fin 12, price_per_unit = Fin 5,
            txn_total = Fin 60, txn_date = lit ''t''\<rparr>],
          sales_seq := 1\<rparr>)"
proof -
  let ?f = "[''qty_4'' \<mapsto> lit ''-3'', ''qty_1'' \<mapsto> lit ''12'']"
  let ?line = "\<lparr>inventory_id = 1, sl_oil_type = lit ''olive'', sl_unit = lit ''Liters'',
                qty = Fin 12, sl_price_per_unit = Fin 5, sl_total = Fin 60\<rparr>"
  have q: "line_qty sample_float ?f 2 = Fin 0" "line_qty sample_float ?f 1 = Fin 12"
    "line_qty sample_float ?f 4 = Fin (- 3)"
    by (simp_all add: line_qty_def qty_field_samples form_get_def strip_lit_samples
        sample_float_values lit_nonempty)
  have coll: "collect_sells Fin sample_float ?f neg_db
     (sort_key oil_type (filter (\<lambda>r. inv_shop r = user_shop bob) (inventory neg_db))) []
       = Inr [?line]"
    unfolding bob_shop shop_items
    by (simp add: collect_sells_step q more_tables del: collect_sells.simps(2) One_nat_def)
  have perf: "perform_sells Fin (user_shop bob) (\<lambda>k. lit ''t'') 0 [?line] neg_db =
     Inr (neg_db\<lparr>inventory := [olive_row\<lparr>quantity := Fin 3\<rparr>, castor_row, eve_row, sesame_row],
          sales := [\<lparr>txn_id = 1, txn_shop = lit ''Bobs'', txn_oil_type = lit ''olive'',
            txn_unit = lit ''Liters'', txn_quantity = Fin 12, price_per_unit = Fin 5,
            txn_total = Fin 60, txn_date = lit ''t''\<rparr>],
          sales_seq := 1\<rparr>)"
    by (simp add: more_tables Let_def fl_sub_def)
  have s: "sell Fin sample_float (\<lambda>k. lit ''t'') (Some 1) POST ?f neg_db =
     (Redirect ''dashboard'' [SaleRecorded],
        neg_db\<lparr>inventory := [olive_row\<lparr>quantity := Fin 3\<rparr>, castor_row, eve_row, sesame_row],
          sales := [\<lparr>txn_id = 1, txn_shop = lit ''Bobs'', txn_oil_type = lit ''olive'',
            txn_unit = lit ''Liters'', txn_quantity = Fin 12, price_per_unit = Fin 5,
            txn_total = Fin 60, txn_date = lit ''t''\<rparr>],
          sales_seq := 1\<rparr>)"
    by (rule sell_POST_ok [OF bob_logged_in(3) coll _ perf]) simp
  have p: "sample_float (strip (form_get ?f (qty_field (inv_id sesame_row)) [])) = Some (Fin (- 3))"
    by (simp add: qty_field_samples form_get_def strip_lit_samples sample_float_values)
  show ?thesis using s p by (simp add: more_tables)
qed

section \<open>Successful sales: properties\<close>

lemma collect_sells_ok:
  assumes "\<forall>x\<in>set its. find (\<lambda>r. inv_id r = inv_id x) (inventory d) = Some x"
    and "\<forall>x\<in>set its. \<not> fl_le (line_qty pf f (inv_id x)) (Fin 0) \<longrightarrow>
           fl_le (line_qty pf f (inv_id x)) (quantity x)"
  shows "collect_sells rnd pf f d its sells =
           Inr (sells @ map (mk_line rnd pf f)
                          (filter (\<lambda>it. \<not> fl_le (line_qty pf f (inv_id it)) (Fin 0)) its))"
  using assms
proof (induction its arbitrary: sells)
  case Nil
  then show ?case by simp
next
  case (Cons x xs)
  have fx: "find (\<lambda>r. inv_id r = inv_id x) (inventory d) = Some x"
    using Cons.prems(1) by simp
  have ih: "\<And>sells. collect_sells rnd pf f d xs sells =
           Inr (sells @ map (mk_line rnd pf f)
                          (filter (\<lambda>it. \<not> fl_le (line_qty pf f (inv_id it)) (Fin 0)) xs))"
    using Cons.IH Cons.prems by simp
  show ?case
  proof (cases "fl_le (line_qty pf f (inv_id x)) (Fin 0)")
    case False
    with Cons.prems(2) have "fl_le (line_qty pf f (inv_id x)) (quantity x)" by simp
    then have "\<not> fl_lt (quantity x) (line_qty pf f (inv_id x))"
      by (auto dest: fl_lt_not_le)
    with False show ?thesis
      by (simp add: collect_sells_step fx ih mk_line_def del: collect_sells.simps(2))
  next
    case True
    then show ?thesis
      by (simp add: collect_sells_step ih del: collect_sells.simps(2))
  qed
qed

lemma map_filter_cong_set:
  "(\<And>x. x \<in> set xs \<Longrightarrow> g x = h x) \<Longrightarrow> List.map_filter g xs = List.map_filter h xs"
  by (induction xs) (auto split: option.split)

lemma sold_row_Nil: "List.map_filter (sold_row rnd pf f []) rows = rows"
  by (induction rows) (simp_all add: sold_row_def)

lemma map_update_ids:
  "map inv_id (map (\<lambda>r. if inv_id r = i then r\<lparr>quantity := q\<rparr> else r) rows) = map inv_id rows"
  by (induction rows) auto

lemma sold_row_delete:
  assumes "\<forall>r\<in>set rows. inv_id r = inv_id l \<longrightarrow> r = l"
    and "inv_id l \<notin> inv_id ` set ls"
    and "fl_le (fl_sub rnd (quantity l) (line_qty pf f (inv_id l))) (Fin 0)"
  shows "List.map_filter (sold_row rnd pf f ls) (filter (\<lambda>r. inv_id r \<noteq> inv_id l) rows) =
         List.map_filter (sold_row rnd pf f (l # ls)) rows"
  using assms(1)
proof (induction rows)
  case Nil
  then show ?case by simp
next
  case (Cons r rows)
  then have ih: "List.map_filter (sold_row rnd pf f ls) (filter (\<lambda>r. inv_id r \<noteq> inv_id l) rows) =
         List.map_filter (sold_row rnd pf f (l # ls)) rows" by simp
  show ?case
  proof (cases "inv_id r = inv_id l")
    case True
    with Cons.prems have "r = l" by simp
    moreover have "sold_row rnd pf f (l # ls) l = None"
      using assms(3) by (simp add: sold_row_def)
    ultimately show ?thesis by (simp add: ih)
  next
    case False
    then have "sold_row rnd pf f (l # ls) r = sold_row rnd pf f ls r" by (simp add: sold_row_def)
    with False show ?thesis by (simp add: ih split: option.split)
  qed
qed

lemma sold_row_update:
  assumes "\<forall>r\<in>set rows. inv_id r = inv_id l \<longrightarrow> r = l"
    and "inv_id l \<notin> inv_id ` set ls"
    and "\<not> fl_le (fl_sub rnd (quantity l) (line_qty pf f (inv_id l))) (Fin 0)"
  shows "List.map_filter (sold_row rnd pf f ls)
           (map (\<lambda>r. if inv_id r = inv_id l
                      then r\<lparr>quantity := fl_sub rnd (quantity l) (line_qty pf f (inv_id l))\<rparr>
                      else r) rows) =
         List.map_filter (sold_row rnd pf f (l # ls)) rows"
  using assms(1)
proof (induction rows)
  case Nil
  then show ?case by simp
next
  case (Cons r rows)
  then have ih: "List.map_filter (sold_row rnd pf f ls)
           (map (\<lambda>r. if inv_id r = inv_id l
                      then r\<lparr>quantity := fl_sub rnd (quantity l) (line_qty pf f (inv_id l))\<rparr>
                      else r) rows) =
         List.map_filter (sold_row rnd pf f (l # ls)) rows" by simp
  show ?case
  proof (cases "inv_id r = inv_id l")
    case True
    with Cons.prems have "r = l" by simp
    moreover have "sold_row rnd pf f (l # ls) l =
        Some (l\<lparr>quantity := fl_sub rnd (quantity l) (line_qty pf f (inv_id l))\<rparr>)"
      using assms(3) by (simp add: sold_row_def)
    moreover have "sold_row rnd pf f ls
                     (l\<lparr>quantity := fl_sub rnd (quantity l) (line_qty pf f (inv_id l))\<rparr>) =
        Some (l\<lparr>quantity := fl_sub rnd (quantity l) (line_qty pf f (inv_id l))\<rparr>)"
      using assms(2) by (simp add: sold_row_def)
    ultimately show ?thesis by (simp add: ih)
  next
    case False
    then have "sold_row rnd pf f (l # ls) r = sold_row rnd pf f ls r" by (simp add: sold_row_def)
    with False show ?thesis by (simp add: ih split: option.split)
  qed
qed

lemma perform_sells_ok:
  assumes "distinct (map inv_id (inventory d))"
    and "set ls \<subseteq> set (inventory d)"
    and "distinct (map inv_id ls)"
    and "sales_seq d = c + k"
    and "\<forall>l\<in>set ls. fl_sub rnd (quantity l) (line_qty pf f (inv_id l)) \<noteq> NaN"
  shows "perform_sells rnd shop now k (map (mk_line rnd pf f) ls) d =
           Inr (d\<lparr>inventory := List.map_filter (sold_row rnd pf f ls) (inventory d),
                  sales := sales d @ map (sale_record rnd pf f shop now c) (enumerate k ls),
                  sales_seq := sales_seq d + length ls\<rparr>)"
  using assms
proof (induction ls arbitrary: d k)
  case Nil
  show ?case by (simp add: sold_row_Nil)
next
  case (Cons l ls)
  let ?q = "line_qty pf f (inv_id l)"
  let ?n = "fl_sub rnd (quantity l) ?q"
  let ?inv1 = "if fl_le ?n (Fin 0)
               then filter (\<lambda>r. inv_id r \<noteq> inv_id l) (inventory d)
               else map (\<lambda>r. if inv_id r = inv_id l then r\<lparr>quantity := ?n\<rparr> else r)
                      (inventory d)"
  let ?d2 = "d\<lparr>inventory := ?inv1,
               sales := sales d @ [sale_record rnd pf f shop now c (k, l)],
               sales_seq := sales_seq d + 1\<rparr>"
  have l_in: "l \<in> set (inventory d)" using Cons.prems(2) by simp
  have fl: "find (\<lambda>r. inv_id r = inv_id l) (inventory d) = Some l"
    using Cons.prems(1) l_in by (rule find_by_id)
  have uniq: "\<forall>r\<in>set (inventory d). inv_id r = inv_id l \<longrightarrow> r = l"
    using Cons.prems(1) l_in by (auto simp: distinct_map dest: inj_onD)
  have notin: "inv_id l \<notin> inv_id ` set ls" using Cons.prems(3) by simp
  have nn: "?n \<noteq> NaN" using Cons.prems(5) by simp
  have step: "perform_sells rnd shop now k (map (mk_line rnd pf f) (l # ls)) d =
                perform_sells rnd shop now (Suc k) (map (mk_line rnd pf f) ls) ?d2"
    using Cons.prems(4) nn
    by (simp add: fl mk_line_def sale_record_def Let_def)
  have d1: "distinct (map inv_id (inventory ?d2))"
    using Cons.prems(1) by (simp add: map_update_ids distinct_map_filter del: map_map)
  have sub: "set ls \<subseteq> set (inventory ?d2)"
  proof
    fix x assume x: "x \<in> set ls"
    then have "x \<in> set (inventory d)" using Cons.prems(2) by auto
    moreover have "inv_id x \<noteq> inv_id l" using notin x by (metis imageI)
    ultimately show "x \<in> set (inventory ?d2)" by (auto simp: image_iff)
  qed
  have d3: "distinct (map inv_id ls)" using Cons.prems(3) by simp
  have seq: "sales_seq ?d2 = c + Suc k" using Cons.prems(4) by simp
  have rest: "\<forall>l\<in>set ls. fl_sub rnd (quantity l) (line_qty pf f (inv_id l)) \<noteq> NaN"
    using Cons.prems(5) by simp
  have inv: "List.map_filter (sold_row rnd pf f ls) (inventory ?d2) =
             List.map_filter (sold_row rnd pf f (l # ls)) (inventory d)"
    using sold_row_delete [OF uniq notin, of rnd pf f] sold_row_update [OF uniq notin, of rnd pf f]
    by (cases "fl_le ?n (Fin 0)") simp_all
  show ?case
    unfolding step Cons.IH [OF d1 sub d3 seq rest] inv
    by (simp add: enumerate_simps)
qed

lemma sale_lines_props:
  assumes "distinct (map inv_id (inventory d))"
  shows "set (sale_lines pf f shop d) \<subseteq> set (inventory d)"
    and "distinct (map inv_id (sale_lines pf f shop d))"
    and "\<And>r. r \<in> set (inventory d) \<Longrightarrow>
           inv_id r \<in> inv_id ` set (sale_lines pf f shop d) \<longleftrightarrow>
           inv_shop r = shop \<and> \<not> fl_le (line_qty pf f (inv_id r)) (Fin 0)"
proof -
  have inj: "inj_on inv_id (set (inventory d))" and dis: "distinct (inventory d)"
    using assms by (simp_all add: distinct_map)
  show sub: "set (sale_lines pf f shop d) \<subseteq> set (inventory d)"
    by (auto simp: sale_lines_def)
  have "distinct (sale_lines pf f shop d)"
    using dis by (simp add: sale_lines_def)
  moreover have "inj_on inv_id (set (sale_lines pf f shop d))"
    using inj sub by (rule inj_on_subset)
  ultimately show "distinct (map inv_id (sale_lines pf f shop d))"
    by (simp add: distinct_map)
  fix r assume r: "r \<in> set (inventory d)"
  show "inv_id r \<in> inv_id ` set (sale_lines pf f shop d) \<longleftrightarrow>
           inv_shop r = shop \<and> \<not> fl_le (line_qty pf f (inv_id r)) (Fin 0)"
  proof
    assume "inv_id r \<in> inv_id ` set (sale_lines pf f shop d)"
    then obtain x where x: "x \<in> set (sale_lines pf f shop d)" "inv_id r = inv_id x" by auto
    then have "x \<in> set (inventory d)" using sub by auto
    with inj r x(2) have "r = x" by (auto dest: inj_onD)
    with x(1) show "inv_shop r = shop \<and> \<not> fl_le (line_qty pf f (inv_id r)) (Fin 0)"
      by (simp add: sale_lines_def)
  next
    assume "inv_shop r = shop \<and> \<not> fl_le (line_qty pf f (inv_id r)) (Fin 0)"
    with r have "r \<in> set (sale_lines pf f shop d)" by (simp add: sale_lines_def)
    then show "inv_id r \<in> inv_id ` set (sale_lines pf f shop d)" by (rule imageI)
  qed
qed

lemma mset_sale_lines:
  "mset (sale_lines pf f shop d) =
     filter_mset (\<lambda>it. inv_shop it = shop \<and> \<not> fl_le (line_qty pf f (inv_id it)) (Fin 0))
       (mset (inventory d))"
  by (simp add: sale_lines_def filter_filter_mset)

lemma sale_lines_empty_iff:
  "sale_lines pf f shop d = [] \<longleftrightarrow>
     filter (\<lambda>it. inv_shop it = shop \<and> \<not> fl_le (line_qty pf f (inv_id it)) (Fin 0))
       (inventory d) = []"
  by (auto simp: sale_lines_def filter_empty_conv)

lemma finite_sub_not_nan:
  assumes "\<forall>x. rnd x \<noteq> NaN" and "fl_le (Fin x) a"
  shows "fl_sub rnd a (Fin x) \<noteq> NaN"
  using assms by (cases a) (simp_all add: fl_sub_def)

lemma map_enumerate_fst:
  assumes "\<And>k x. g (k, x) = h k"
  shows "map g (enumerate n xs) = map h [n..<n + length xs]"
proof -
  have "map g (enumerate n xs) = map (h \<circ> fst) (enumerate n xs)"
    by (rule map_cong) (auto simp: assms)
  also have "\<dots> = map h (map fst (enumerate n xs))" by (simp only: map_map)
  also have "\<dots> = map h [n..<n + length xs]" by (simp only: map_fst_enumerate)
  finally show ?thesis .
qed

lemma map_enumerate_snd:
  assumes "\<And>k x. g (k, x) = h x"
  shows "map g (enumerate n xs) = map h xs"
proof -
  have "map g (enumerate n xs) = map (h \<circ> snd) (enumerate n xs)"
    by (rule map_cong) (auto simp: assms)
  also have "\<dots> = map h (map snd (enumerate n xs))" by (simp only: map_map)
  also have "\<dots> = map h xs" by (simp only: map_snd_enumerate)
  finally show ?thesis .
qed

lemma sale_records_props:
  "map txn_id (map (sale_record rnd pf f shop now c) (enumerate 0 ls)) =
     map (\<lambda>k. c + k + 1) [0..<length ls]"
  "map txn_date (map (sale_record rnd pf f shop now c) (enumerate 0 ls)) =
     map now [0..<length ls]"
  "map sale_content (map (sale_record rnd pf f shop now c) (enumerate 0 ls)) =
     map (spec_sale_content rnd pf f shop) ls"
proof -
  show "map txn_id (map (sale_record rnd pf f shop now c) (enumerate 0 ls)) =
     map (\<lambda>k. c + k + 1) [0..<length ls]"
    using map_enumerate_fst [of "txn_id \<circ> sale_record rnd pf f shop now c" "\<lambda>k. c + k + 1" 0 ls]
    by (simp add: sale_record_def)
  show "map txn_date (map (sale_record rnd pf f shop now c) (enumerate 0 ls)) =
     map now [0..<length ls]"
    using map_enumerate_fst [of "txn_date \<circ> sale_record rnd pf f shop now c" now 0 ls]
    by (simp add: sale_record_def)
  show "map sale_content (map (sale_record rnd pf f shop now c) (enumerate 0 ls)) =
     map (spec_sale_content rnd pf f shop) ls"
    using map_enumerate_snd [of "sale_content \<circ> sale_record rnd pf f shop now c"
        "spec_sale_content rnd pf f shop" 0 ls]
    by (simp add: sale_record_def sale_content_def spec_sale_content_def)
qed




section \<open>Search: properties\<close>

lemma lit_percent: "lit ''%'' = [37]"
  by (simp add: lit_def)

lemma lower_char_percent: "lower_char c = 37 \<longleftrightarrow> c = 37"
  by (auto simp: lower_char_def)

lemma lower_char_underscore: "lower_char c = 95 \<longleftrightarrow> c = 95"
  by (auto simp: lower_char_def)

lemma lower_char_fix [simp]: "lower_char 37 = 37" "lower_char 95 = 95"
  by (simp_all add: lower_char_def)

lemma lower_wildcard_free:
  assumes "37 \<notin> set q" and "95 \<notin> set q"
  shows "37 \<notin> set (lower q)" and "95 \<notin> set (lower q)"
proof -
  show "37 \<notin> set (lower q)"
  proof
    assume "37 \<in> set (lower q)"
    then obtain x where "x \<in> set q" "lower_char x = 37" by (auto simp: lower_def)
    with assms(1) show False by (simp add: lower_char_percent)
  qed
  show "95 \<notin> set (lower q)"
  proof
    assume "95 \<in> set (lower q)"
    then obtain x where "x \<in> set q" "lower_char x = 95" by (auto simp: lower_def)
    with assms(2) show False by (simp add: lower_char_underscore)
  qed
qed

lemma lower_char_idem [simp]: "lower_char (lower_char c) = lower_char c"
  by (simp add: lower_char_def)

lemma lower_idem [simp]: "lower (lower s) = lower s"
  by (simp add: lower_def)

lemma like_percent_only [simp]: "like [37] s"
  by (induction s) simp_all

lemma like_percent:
  "like (37 # ps) s \<longleftrightarrow> (\<exists>k\<le>length s. like ps (drop k s))"
proof (induction s)
  case Nil
  then show ?case by simp
next
  case (Cons c t)
  have "(\<exists>k\<le>length (c # t). like ps (drop k (c # t))) \<longleftrightarrow>
        like ps (c # t) \<or> (\<exists>k\<le>length t. like ps (drop k t))"
  proof
    assume "\<exists>k\<le>length (c # t). like ps (drop k (c # t))"
    then obtain k where k: "k \<le> length (c # t)" "like ps (drop k (c # t))" by blast
    show "like ps (c # t) \<or> (\<exists>k\<le>length t. like ps (drop k t))"
    proof (cases k)
      case 0
      with k show ?thesis by simp
    next
      case (Suc j)
      with k have "j \<le> length t" "like ps (drop j t)" by simp_all
      then show ?thesis by blast
    qed
  next
    assume "like ps (c # t) \<or> (\<exists>k\<le>length t. like ps (drop k t))"
    then show "\<exists>k\<le>length (c # t). like ps (drop k (c # t))"
    proof
      assume "like ps (c # t)"
      then have "0 \<le> length (c # t) \<and> like ps (drop 0 (c # t))" by simp
      then show ?thesis by blast
    next
      assume "\<exists>k\<le>length t. like ps (drop k t)"
      then obtain k where "k \<le> length t" "like ps (drop k t)" by blast
      then have "Suc k \<le> length (c # t) \<and> like ps (drop (Suc k) (c # t))" by simp
      then show ?thesis by blast
    qed
  qed
  with Cons.IH show ?case by simp
qed

lemma like_literal:
  assumes "37 \<notin> set q" and "95 \<notin> set q"
  shows "like (q @ ps) s \<longleftrightarrow>
           length q \<le> length s \<and> lower (take (length q) s) = lower q \<and>
           like ps (drop (length q) s)"
  using assms
proof (induction q arbitrary: s)
  case Nil
  then show ?case by (simp add: lower_def)
next
  case (Cons a q)
  then have ih: "\<And>s. like (q @ ps) s \<longleftrightarrow>
           length q \<le> length s \<and> lower (take (length q) s) = lower q \<and>
           like ps (drop (length q) s)" by simp
  from Cons.prems have a: "a \<noteq> 37" "a \<noteq> 95" by auto
  show ?case
  proof (cases s)
    case Nil
    with a show ?thesis by simp
  next
    case (Cons c t)
    with a ih show ?thesis by (auto simp: lower_def)
  qed
qed

lemma sublist_iff_drop_take:
  "sublist p t \<longleftrightarrow>
     (\<exists>k\<le>length t. length p \<le> length (drop k t) \<and> take (length p) (drop k t) = p)"
proof
  assume "sublist p t"
  then obtain a b where t: "t = a @ p @ b" by (auto simp: sublist_def)
  have "length a \<le> length t \<and> length p \<le> length (drop (length a) t) \<and>
        take (length p) (drop (length a) t) = p"
    by (simp add: t)
  then show "\<exists>k\<le>length t. length p \<le> length (drop k t) \<and> take (length p) (drop k t) = p"
    by blast
next
  assume "\<exists>k\<le>length t. length p \<le> length (drop k t) \<and> take (length p) (drop k t) = p"
  then obtain k where k: "take (length p) (drop k t) = p" by blast
  have "t = take k t @ take (length p) (drop k t) @ drop (length p) (drop k t)"
    by (simp only: append_take_drop_id)
  with k have "t = take k t @ p @ drop (length p) (drop k t)" by simp
  then show "sublist p t" unfolding sublist_def by blast
qed

lemma like_literal_percent:
  assumes "37 \<notin> set q" and "95 \<notin> set q"
  shows "like (q @ [37]) s \<longleftrightarrow> length q \<le> length s \<and> lower (take (length q) s) = lower q"
  unfolding like_literal [OF assms] using like_percent_only by blast

lemma lower_take_drop: "lower (take n (drop k (lower s))) = take n (drop k (lower s))"
  by (simp add: lower_def take_map drop_map)

lemma like_contains:
  assumes "37 \<notin> set q" and "95 \<notin> set q"
  shows "like (lower (lit ''%'' @ q @ lit ''%'')) (lower s) \<longleftrightarrow> contains_ci q s"
proof -
  have pat: "lower (lit ''%'' @ q @ lit ''%'') = 37 # (lower q @ [37])"
    by (simp add: lower_def lit_percent)
  have wf: "37 \<notin> set (lower q)" "95 \<notin> set (lower q)"
    using assms by (rule lower_wildcard_free)+
  have "like (lower (lit ''%'' @ q @ lit ''%'')) (lower s) \<longleftrightarrow>
        (\<exists>k\<le>length (lower s). like (lower q @ [37]) (drop k (lower s)))"
    by (simp only: pat like_percent)
  also have "\<dots> \<longleftrightarrow>
        (\<exists>k\<le>length (lower s). length (lower q) \<le> length (drop k (lower s)) \<and>
            take (length (lower q)) (drop k (lower s)) = lower q)"
    by (simp only: like_literal_percent [OF wf] lower_take_drop lower_idem)
  also have "\<dots> \<longleftrightarrow> contains_ci q s"
    by (simp only: contains_ci_def sublist_iff_drop_take)
  finally show ?thesis .
qed

lemma set_order_by_desc [simp]: "set (order_by_desc k xs) = set xs"
  by (simp add: order_by_desc_def)

lemma length_order_by_desc [simp]: "length (order_by_desc k xs) = length xs"
  by (simp add: order_by_desc_def)

lemma search_results_eq:
  assumes "current_user sess d = Some u"
  shows "inv_results (search sess args d) =
           (if search_query args = [] then []
            else sort_key oil_type
                   (filter (\<lambda>r. inv_shop r = user_shop u \<and>
                      (like (lower (lit ''%'' @ search_query args @ lit ''%'')) (lower (oil_type r)) \<or>
                       like (lower (lit ''%'' @ search_query args @ lit ''%'')) (lower (inv_unit r))))
                    (inventory d)))"
    and "sales_results (search sess args d) =
           (if search_query args = [] then []
            else take 500 (order_by_desc txn_date
                   (filter (\<lambda>r. txn_shop r = user_shop u \<and>
                       like (lower (lit ''%'' @ search_query args @ lit ''%'')) (lower (txn_oil_type r)))
                    (sales d))))"
    and "purchases_results (search sess args d) =
           (if search_query args = [] then []
            else take 500 (order_by_desc txn_date
                   (filter (\<lambda>r. txn_shop r = user_shop u \<and>
                       like (lower (lit ''%'' @ search_query args @ lit ''%'')) (lower (txn_oil_type r)))
                    (purchases d))))"
  using assms by (simp_all add: search_def search_query_def Let_def)

lemma search_results_logged_out:
  assumes "current_user sess d = None"
  shows "inv_results (search sess args d) = []" "sales_results (search sess args d) = []"
    "purchases_results (search sess args d) = []"
  using assms by (simp_all add: search_def)

text \<open>
  C6, as amended. The sales matches and the purchases matches of a search are capped at
  500 rows each. The inventory matches have no cap: for a logged-in user and a non-empty
  query their number is the number of matching inventory rows of the shop.
\<close>

theorem search_caps:
  "length (sales_results (search sess args d)) \<le> 500 \<and>
   length (purchases_results (search sess args d)) \<le> 500 \<and>
   (\<forall>u. current_user sess d = Some u \<and> search_query args \<noteq> [] \<longrightarrow>
      length (inv_results (search sess args d)) =
        length (filter (\<lambda>r. inv_shop r = user_shop u \<and>
                   (like (lower (lit ''%'' @ search_query args @ lit ''%'')) (lower (oil_type r)) \<or>
                    like (lower (lit ''%'' @ search_query args @ lit ''%'')) (lower (inv_unit r))))
                 (inventory d)))"
proof (cases "current_user sess d")
  case None
  then show ?thesis by (simp add: search_results_logged_out)
next
  case (Some u)
  then show ?thesis by (simp add: search_results_eq)
qed

lemma olive_query: "search_query [''q'' \<mapsto> lit ''olive''] = lit ''olive''"
  by (simp add: search_query_def strip_lit_samples)

lemma olive_like: "like (lower (lit ''%'' @ lit ''olive'' @ lit ''%'')) (lower (lit ''olive''))"
  by code_simp

lemma crowded_results:
  "length (inv_results (search (Some 1) [''q'' \<mapsto> lit ''olive''] (crowded_db n))) = n"
proof -
  have "filter (\<lambda>r. inv_shop r = lit ''Bobs'' \<and>
                 (like (lower (lit ''%'' @ lit ''olive'' @ lit ''%'')) (lower (oil_type r)) \<or>
                  like (lower (lit ''%'' @ lit ''olive'' @ lit ''%'')) (lower (inv_unit r))))
          (inventory (crowded_db n)) = inventory (crowded_db n)"
    using olive_like by (intro filter_True) (auto simp: crowded_db_def)
  moreover have "lit ''olive'' \<noteq> []" by (simp add: lit_def)
  ultimately show ?thesis
    by (simp del: One_nat_def add: search_results_eq(1) [OF bob_logged_in(6)] olive_query)
       (simp add: crowded_db_def)
qed

text \<open>
  C6 as stated fails for the inventory matches: the query has no \<open>LIMIT\<close>, and an
  inventory of \<open>n\<close> matching rows gives \<open>n\<close> results, 501 for instance.
\<close>

theorem search_inventory_uncapped_counterexample:
  "length (inv_results (search (Some 1) [''q'' \<mapsto> lit ''olive''] (crowded_db 501))) = 501 \<and>
   (\<forall>n. length (inv_results (search (Some 1) [''q'' \<mapsto> lit ''olive''] (crowded_db n))) = n)"
  by (simp del: One_nat_def add: crowded_results)

theorem search_caps_witness:
  "current_user (Some 1) (crowded_db 501) \<noteq> None \<and>
   search_query [''q'' \<mapsto> lit ''olive''] \<noteq> [] \<and>
   length (sales_results (search (Some 1) [''q'' \<mapsto> lit ''olive''] (crowded_db 501))) \<le> 500 \<and>
   length (inv_results (search (Some 1) [''q'' \<mapsto> lit ''olive''] (crowded_db 501))) =
     length (filter (\<lambda>r. inv_shop r = lit ''Bobs'' \<and>
                   (like (lower (lit ''%'' @ lit ''olive'' @ lit ''%'')) (lower (oil_type r)) \<or>
                    like (lower (lit ''%'' @ lit ''olive'' @ lit ''%'')) (lower (inv_unit r))))
                 (inventory (crowded_db 501)))"
proof -
  have ne: "lit ''olive'' \<noteq> []" by (simp add: lit_def)
  show ?thesis
    using search_caps [of "Some 1" "[''q'' \<mapsto> lit ''olive'']" "crowded_db 501"]
      bob_logged_in(6) [of 501] olive_query ne
    by (auto simp del: One_nat_def)
qed

lemma filter_conj: "filter (\<lambda>r. P r \<and> Q r) xs = filter Q (filter P xs)"
  by (induction xs) auto

lemma search_unfold:
  assumes "current_user sess d = Some u"
  shows "search sess args d =
     (if search_query args \<noteq> [] then
        Render (SearchResults (search_query args) (inv_results (search sess args d))
                 (sales_results (search sess args d)) (purchases_results (search sess args d)))
          (if inv_results (search sess args d) = [] \<and> sales_results (search sess args d) = [] \<and>
              purchases_results (search sess args d) = []
           then [NoRecordFound (search_query args)] else [])
      else Redirect ''dashboard'' [EnterKeyword])"
  using assms by (simp add: search_def search_query_def Let_def)

lemma search_noninterference:
  assumes "users d' = users d"
    and "current_user sess d = Some u"
    and "filter (\<lambda>r. inv_shop r = user_shop u) (inventory d') =
         filter (\<lambda>r. inv_shop r = user_shop u) (inventory d)"
    and "filter (\<lambda>r. txn_shop r = user_shop u) (sales d') =
         filter (\<lambda>r. txn_shop r = user_shop u) (sales d)"
    and "filter (\<lambda>r. txn_shop r = user_shop u) (purchases d') =
         filter (\<lambda>r. txn_shop r = user_shop u) (purchases d)"
  shows "search sess args d' = search sess args d"
proof -
  have "current_user sess d' = current_user sess d"
    unfolding current_user_def assms(1) ..
  then have u': "current_user sess d' = Some u"
    using assms(2) by simp
  have i: "inv_results (search sess args d') = inv_results (search sess args d)"
    unfolding search_results_eq(1) [OF u'] search_results_eq(1) [OF assms(2)] filter_conj assms(3) ..
  have s: "sales_results (search sess args d') = sales_results (search sess args d)"
    unfolding search_results_eq(2) [OF u'] search_results_eq(2) [OF assms(2)] filter_conj assms(4) ..
  have p: "purchases_results (search sess args d') = purchases_results (search sess args d)"
    unfolding search_results_eq(3) [OF u'] search_results_eq(3) [OF assms(2)] filter_conj assms(5) ..
  show ?thesis
    by (rule trans [OF search_unfold [OF u', of args, unfolded i s p]
                       search_unfold [OF assms(2), of args, symmetric]])
qed


lemma underscore_query: "search_query [''q'' \<mapsto> lit ''_''] = lit ''_''"
  by (simp add: search_query_def strip_def is_space_def lit_def)

lemma underscore_like:
  "like (lower (lit ''%'' @ lit ''_'' @ lit ''%'')) (lower (lit ''olive''))"
  "like (lower (lit ''%'' @ lit ''_'' @ lit ''%'')) (lower (lit ''castor''))"
  "\<not> contains_ci (lit ''_'') (lit ''olive'')" "\<not> contains_ci (lit ''_'') (lit ''Liters'')"
  "\<not> contains_ci (lit ''_'') (lit ''castor'')" "\<not> contains_ci (lit ''_'') (lit ''Box'')"
  by code_simp+

lemma olive_contains: "contains_ci (lit ''olive'') (lit ''olive'')"
  by code_simp


lemma oli_query: "search_query [''q'' \<mapsto> lit '' OLI ''] = lit ''OLI''"
  by (simp add: search_query_def strip_def is_space_def lit_def)

lemma oli_contains:
  "contains_ci (lit ''OLI'') (lit ''olive'')" "\<not> contains_ci (lit ''OLI'') (lit ''castor'')"
  "\<not> contains_ci (lit ''OLI'') (lit ''Box'')" "\<not> contains_ci (lit ''OLI'') (lit ''Liters'')"
  by code_simp+

lemma oli_plain: "37 \<notin> set (lit ''OLI'')" "95 \<notin> set (lit ''OLI'')" "lit ''OLI'' \<noteq> []"
  by (simp_all add: lit_def)


end
